theory Spec2Isabelle
  imports Complex_Main "HOL-Library.Stream"
begin

section \<open>Random numbers\<close>

text \<open>
  \<^verbatim>\<open>Math.random()\<close> returns a number \<open>r\<close> with \<open>0 \<le> r < 1\<close>. The type \<open>rnd\<close> holds
  exactly these values (as exact rationals: every double is one), so an index computed
  as \<^verbatim>\<open>Math.floor(Math.random() * n)\<close> is below \<open>n\<close> by construction. Products and
  comparisons are exact here; the rounding of double arithmetic is not modelled.

  The numbers that \<^verbatim>\<open>Math.random()\<close> hands out while one event is handled form a
  \<open>tape\<close>; every function that calls \<^verbatim>\<open>Math.random()\<close> takes the tape and returns
  what is left of it, so the draws are consumed in the order of the source.
\<close>

typedef rnd = "{r :: rat. 0 \<le> r \<and> r < 1}"
  morphisms rat_of_rnd Abs_rnd
  by (rule exI [of _ 0]) simp

setup_lifting type_definition_rnd

text \<open>\<^verbatim>\<open>Math.floor(r * n)\<close> for a draw \<open>r\<close>.\<close>

lift_definition floor_times :: "rnd \<Rightarrow> nat \<Rightarrow> nat"
  is "\<lambda>r n. nat \<lfloor>r * of_nat n\<rfloor>" .

text \<open>\<^verbatim>\<open>r < q\<close> for a draw \<open>r\<close> and a constant \<open>q\<close>.\<close>

lift_definition rnd_less :: "rnd \<Rightarrow> rat \<Rightarrow> bool"
  is "\<lambda>r q. r < q" .

text \<open>The draw \<open>k / d\<close> (for \<open>k < d\<close>), to write concrete tapes.\<close>

lift_definition draw :: "nat \<Rightarrow> nat \<Rightarrow> rnd"
  is "\<lambda>k d. if k < d then of_nat k / of_nat d else 0"
  by simp

type_synonym tape = "rnd stream"

definition Math_random :: "tape \<Rightarrow> rnd \<times> tape" where
  "Math_random t = (shd t, stl t)"

section \<open>Element pool\<close>

type_synonym element = string

definition ELEMENTS :: "element list" where
  "ELEMENTS = [''Fire'', ''Water'', ''Earth'', ''Air'', ''Lightning'', ''Ice'', ''Metal'',
     ''Nature'', ''Shadow'', ''Light'']"

text \<open>
  \<^verbatim>\<open>copy.splice(idx, 1)\<close> removes the element at \<open>idx\<close> from \<open>copy\<close> and returns it in
  a one-element array. The index is always in range (see \<open>floor_times_less\<close>).
\<close>

definition splice1 :: "nat \<Rightarrow> 'a list \<Rightarrow> 'a list" where
  "splice1 idx copy = take idx copy @ drop (Suc idx) copy"

text \<open>
  The loop of \<^verbatim>\<open>randomElements\<close>:
  \<^verbatim>\<open>for (let i = 0; i < count && copy.length; i++) {
    const idx = Math.floor(Math.random() * copy.length);
    result.push(copy.splice(idx, 1)[0]);
  }\<close>
\<close>

function randomElements_loop ::
  "nat \<Rightarrow> nat \<Rightarrow> element list \<Rightarrow> element list \<Rightarrow> tape \<Rightarrow> element list \<times> tape" where
  "randomElements_loop i count copy result t =
     (if i < count \<and> copy \<noteq> [] then
        (case Math_random t of (r, t') \<Rightarrow>
           let idx = floor_times r (length copy)
           in randomElements_loop (Suc i) count (splice1 idx copy) (result @ [copy ! idx]) t')
      else (result, t))"
  by pat_completeness auto
termination
  by (relation "measure (\<lambda>(i, count, copy, result, t). count - i)") auto

definition randomElements :: "nat \<Rightarrow> tape \<Rightarrow> element list \<times> tape" where
  "randomElements count t = randomElements_loop 0 count ELEMENTS [] t"

section \<open>Data model\<close>

text \<open>
  A player is \<^verbatim>\<open>{ id: socket.id, name: username, score: 0 }\<close>; a pending ability is
  \<^verbatim>\<open>{ playerId, name, elements, description, imageUrl, power }\<close>. The fields \<open>id\<close>,
  the second \<open>name\<close> and \<open>power\<close> carry a prime, since the plain names are taken.
\<close>

record player =
  id' :: string
  name :: string
  score :: nat

record submission =
  playerId :: string
  name' :: string
  elements :: "element list"
  description :: string
  imageUrl :: string
  power' :: nat

datatype roundType = standard | missing | evolution

record room =
  players :: "player list"
  currentRound :: nat
  roundType :: roundType
  pending :: "submission list"

text \<open>What the server sends: \<^verbatim>\<open>socket.emit\<close> to one socket, \<^verbatim>\<open>io.to(roomCode).emit\<close>
  to the sockets of a room.\<close>

datatype message =
    roomCreated string
  | errorMessage string
  | roomJoined "player list"
  | roundStart nat roundType "element list list" "(string \<times> nat) list"
  | battleResult nat string submission submission "(string \<times> nat) list" string
  | gameOver "(string \<times> nat) list"
  | playerLeft string

datatype emit = To_socket string message | To_room string message

text \<open>\<^verbatim>\<open>Array.prototype.join\<close> on an array of strings.\<close>

fun join :: "string \<Rightarrow> string list \<Rightarrow> string" where
  "join sep [] = []"
| "join sep [x] = x"
| "join sep (x # y # ys) = x @ sep @ join sep (y # ys)"

text \<open>\<^verbatim>\<open>room.players.map(p => ({ name: p.name, score: p.score }))\<close>\<close>

definition scores :: "room \<Rightarrow> (string \<times> nat) list" where
  "scores room = map (\<lambda>p. (name p, score p)) (players room)"

text \<open>\<^verbatim>\<open>findIndex\<close>: the first index whose entry satisfies the test, \<open>None\<close> for \<open>-1\<close>.\<close>

fun findIndex :: "('a \<Rightarrow> bool) \<Rightarrow> 'a list \<Rightarrow> nat option" where
  "findIndex P [] = None"
| "findIndex P (x # xs) =
     (if P x then Some 0 else (case findIndex P xs of None \<Rightarrow> None | Some i \<Rightarrow> Some (Suc i)))"

section \<open>The room registry\<close>

text \<open>
  \<^verbatim>\<open>const lobbies = {}\<close> is a plain object. Its own properties are kept as an
  association list in the order in which \<^verbatim>\<open>Object.keys(lobbies)\<close> lists them: the keys
  that are array indices in ascending numeric order, then the other keys in the order
  of their creation. An assignment to an existing key keeps the key's place.
\<close>

type_synonym registry = "(string \<times> room) list"

definition decimal :: "string \<Rightarrow> nat" where
  "decimal s = foldl (\<lambda>a c. 10 * a + (of_char c - 48)) 0 s"

definition isArrayIndex :: "string \<Rightarrow> bool" where
  "isArrayIndex s \<longleftrightarrow>
     s \<noteq> [] \<and> list_all (\<lambda>c. c \<in> set ''0123456789'') s \<and>
     (s = ''0'' \<or> hd s \<noteq> CHR ''0'') \<and> decimal s < 4294967295"

fun insertIndexKey :: "string \<Rightarrow> room \<Rightarrow> registry \<Rightarrow> registry" where
  "insertIndexKey k v [] = [(k, v)]"
| "insertIndexKey k v ((k', v') # rest) =
     (if isArrayIndex k' \<and> decimal k' < decimal k then (k', v') # insertIndexKey k v rest
      else (k, v) # (k', v') # rest)"

text \<open>Writing a room that is already registered, in place (rooms are mutable objects).\<close>

definition registry_update :: "string \<Rightarrow> room \<Rightarrow> registry \<Rightarrow> registry" where
  "registry_update code room l = map (\<lambda>(k, r). if k = code then (k, room) else (k, r)) l"

text \<open>\<^verbatim>\<open>lobbies[roomCode] = room\<close>\<close>

definition registry_put :: "string \<Rightarrow> room \<Rightarrow> registry \<Rightarrow> registry" where
  "registry_put code room l =
     (if code \<in> set (map fst l) then registry_update code room l
      else if isArrayIndex code then insertIndexKey code room l
      else l @ [(code, room)])"

text \<open>\<^verbatim>\<open>delete lobbies[roomCode]\<close>\<close>

definition registry_delete :: "string \<Rightarrow> registry \<Rightarrow> registry" where
  "registry_delete code l = filter (\<lambda>(k, r). k \<noteq> code) l"

text \<open>
  A read \<^verbatim>\<open>lobbies[roomCode]\<close> that finds no own property goes on to
  \<^verbatim>\<open>Object.prototype\<close>, whose members (functions, and \<^verbatim>\<open>Object.prototype\<close> itself
  for \<^verbatim>\<open>__proto__\<close>) are all truthy, so that \<^verbatim>\<open>if (!room) return\<close> lets them pass. Such
  a value has no \<^verbatim>\<open>players\<close>, and the handlers fail on it with a \<^verbatim>\<open>TypeError\<close>.

  \<^verbatim>\<open>startRound\<close> writes \<^verbatim>\<open>currentRound\<close>, \<^verbatim>\<open>pending\<close> and \<^verbatim>\<open>roundType\<close> to the value it
  read before it fails. Written to a function these are never seen again; written to
  \<^verbatim>\<open>Object.prototype\<close> (room code \<^verbatim>\<open>__proto__\<close>) they become inherited properties of
  \<^verbatim>\<open>lobbies\<close>, of which \<^verbatim>\<open>pending\<close> (an array) and \<^verbatim>\<open>roundType\<close> (a non-empty string) are
  truthy and \<^verbatim>\<open>currentRound\<close> (\<^verbatim>\<open>NaN\<close>) is not. The flag \<open>polluted\<close> records that this
  has happened.
\<close>

definition Object_prototype_keys :: "string list" where
  "Object_prototype_keys =
     [''constructor'', ''__defineGetter__'', ''__defineSetter__'', ''hasOwnProperty'',
      ''__lookupGetter__'', ''__lookupSetter__'', ''isPrototypeOf'', ''propertyIsEnumerable'',
      ''toString'', ''valueOf'', ''__proto__'', ''toLocaleString'']"

record server =
  lobbies :: registry
  polluted :: bool

datatype slot = Absent | Inherited | Own room

definition lobbies_get :: "server \<Rightarrow> string \<Rightarrow> slot" where
  "lobbies_get s code =
     (case map_of (lobbies s) code of
        Some room \<Rightarrow> Own room
      | None \<Rightarrow>
          if code \<in> set Object_prototype_keys \<or>
             (polluted s \<and> code \<in> set [''pending'', ''roundType''])
          then Inherited else Absent)"

text \<open>
  The room codes that \<^verbatim>\<open>createRoom\<close> can generate:
  \<^verbatim>\<open>Math.random().toString(36).substring(2, 6).toUpperCase()\<close> is a string of at most four
  characters, each a digit or an upper-case letter.
\<close>

definition generated_code :: "string \<Rightarrow> bool" where
  "generated_code code \<longleftrightarrow>
     length code \<le> 4 \<and> list_all (\<lambda>c. c \<in> set ''0123456789ABCDEFGHIJKLMNOPQRSTUVWXYZ'') code"

section \<open>AI substitute and arbitration\<close>

text \<open>\<^verbatim>\<open>randomElements(1)[0]\<close>\<close>

definition randomElement :: "tape \<Rightarrow> element \<times> tape" where
  "randomElement t = (case randomElements 1 t of (xs, t') \<Rightarrow> (xs ! 0, t'))"

definition createAIPlayer :: "room \<Rightarrow> tape \<Rightarrow> room \<times> tape" where
  "createAIPlayer room t =
     (case randomElement t of (e1, t1) \<Rightarrow>
      case randomElement t1 of (e2, t2) \<Rightarrow>
      case Math_random t2 of (r, t3) \<Rightarrow>
        (room\<lparr>pending := pending room @
           [\<lparr>playerId = ''AI'', name' = ''AI Bot'', elements = [e1, e2],
             description = ''AI uses '' @ join '' and '' [e1, e2], imageUrl = [],
             power' = floor_times r 101\<rparr>]\<rparr>, t3))"

text \<open>
  What the call to the completion service comes to: no API key is configured
  (\<open>NoKey\<close>); the request, the decoding of its response or the reading of the answer
  throws (\<open>Threw\<close>); \<^verbatim>\<open>data.choices?.[0]?.message?.content?.trim()\<close> has a value, which
  is \<^verbatim>\<open>undefined\<close> (\<open>None\<close>) or a string; or the request never completes (\<open>Stalled\<close>:
  the code sets no timeout). In the last case \<^verbatim>\<open>evaluateAbilities\<close> does not return,
  which is the value \<open>None\<close>.
\<close>

datatype arbitration = NoKey | Threw | Answer "string option" | Stalled

definition evaluateAbilities ::
  "arbitration \<Rightarrow> submission \<Rightarrow> submission \<Rightarrow> tape \<Rightarrow>
   ((submission \<times> submission) \<times> tape) option" where
  "evaluateAbilities orc a b t =
     (case Math_random t of (ra, t1) \<Rightarrow>
      case Math_random t1 of (rb, t2) \<Rightarrow>
        let a1 = a\<lparr>power' := floor_times ra 101\<rparr>;
            b1 = b\<lparr>power' := floor_times rb 101\<rparr>
        in (case orc of
              Stalled \<Rightarrow> None
            | Answer answer \<Rightarrow>
                let a2 = (if answer = Some ''A'' then a1\<lparr>power' := power' b1 + 1\<rparr> else a1);
                    b2 = (if answer = Some ''B'' then b1\<lparr>power' := power' a2 + 1\<rparr> else b1)
                in Some ((a2, b2), t2)
            | _ \<Rightarrow> Some ((a1, b1), t2)))"

section \<open>Round controller\<close>

text \<open>
  The outcome of a piece of code: it completes, or an exception leaves it. Either way
  it has sent some messages and left a state.
\<close>

datatype 'a completion = Normal 'a | Throws 'a

definition startRound ::
  "server \<Rightarrow> string \<Rightarrow> tape \<Rightarrow> (emit list \<times> server) completion" where
  "startRound s roomCode t =
     (case lobbies_get s roomCode of
        Absent \<Rightarrow> Normal ([], s)
      | Inherited \<Rightarrow> Throws ([], s\<lparr>polluted := polluted s \<or> roomCode = ''__proto__''\<rparr>)
      | Own room \<Rightarrow>
          (case Math_random t of (rand, t0) \<Rightarrow>
           case randomElements 3 t0 of (s1, t1) \<Rightarrow>
           case randomElements 3 t1 of (s2, t2) \<Rightarrow>
           case randomElements 3 t2 of (s3, t3) \<Rightarrow>
           case randomElements 3 t3 of (s4, t4) \<Rightarrow>
           case randomElements 3 t4 of (s5, t5) \<Rightarrow>
             let (type, sets) =
                   (if rnd_less rand (33 / 100) then (missing, [s3])
                    else if rnd_less rand (66 / 100) then (evolution, [s3, s4, s5])
                    else (standard, [s1, s2]));
                 room' = room\<lparr>currentRound := currentRound room + 1, pending := [],
                           roundType := type\<rparr>
             in Normal ([To_room roomCode (roundStart (currentRound room') type sets (scores room'))],
                        s\<lparr>lobbies := registry_update roomCode room' (lobbies s)\<rparr>)))"

section \<open>Event handlers\<close>

definition createRoom :: "server \<Rightarrow> string \<Rightarrow> string \<Rightarrow> string \<Rightarrow> (emit list \<times> server) completion" where
  "createRoom s sid username roomCode =
     Normal ([To_socket sid (roomCreated roomCode)],
       s\<lparr>lobbies := registry_put roomCode
            \<lparr>players = [\<lparr>id' = sid, name = username, score = 0\<rparr>], currentRound = 0,
             roundType = standard, pending = []\<rparr> (lobbies s)\<rparr>)"

text \<open>
  On a value inherited from \<^verbatim>\<open>Object.prototype\<close>, \<^verbatim>\<open>room.players.push\<close> throws inside
  the \<^verbatim>\<open>try\<close>, and the \<^verbatim>\<open>catch\<close> reports to the sender.
\<close>

definition joinRoom :: "server \<Rightarrow> string \<Rightarrow> string \<Rightarrow> string \<Rightarrow> (emit list \<times> server) completion" where
  "joinRoom s sid username roomCode =
     (case lobbies_get s roomCode of
        Absent \<Rightarrow> Normal ([To_socket sid (errorMessage ''Room not found'')], s)
      | Inherited \<Rightarrow> Normal ([To_socket sid (errorMessage ''Could not join room'')], s)
      | Own room \<Rightarrow>
          let room' = room\<lparr>players := players room @ [\<lparr>id' = sid, name = username, score = 0\<rparr>]\<rparr>
          in Normal ([To_room roomCode (roomJoined (players room'))],
                     s\<lparr>lobbies := registry_update roomCode room' (lobbies s)\<rparr>))"

text \<open>The handler of \<^verbatim>\<open>startGame\<close> has no \<^verbatim>\<open>try\<close>: what \<^verbatim>\<open>startRound\<close> throws leaves it.\<close>

definition startGame :: "server \<Rightarrow> string \<Rightarrow> tape \<Rightarrow> (emit list \<times> server) completion" where
  "startGame s roomCode t = startRound s roomCode t"

text \<open>
  The first part of the \<^verbatim>\<open>playerChoice\<close> handler, on the room it found: the padding of a
  \<open>missing\<close> round, the new pending ability (\<open>human_entry\<close>, the object that is pushed),
  and the AI opponent of a lone player.
  \<^verbatim>\<open>room.players.find(p => p.id === socket.id)?.name || 'Unknown'\<close> is \<^verbatim>\<open>'Unknown'\<close> also
  for a player whose name is the empty string.
\<close>

definition human_entry ::
  "room \<Rightarrow> string \<Rightarrow> element list \<Rightarrow> string \<Rightarrow> string \<Rightarrow> submission" where
  "human_entry room sid els desc img =
     \<lparr>playerId = sid,
      name' = (case find (\<lambda>p. id' p = sid) (players room) of
                 None \<Rightarrow> ''Unknown''
               | Some p \<Rightarrow> if name p = [] then ''Unknown'' else name p),
      elements = els, description = desc, imageUrl = img, power' = 0\<rparr>"

definition submit ::
  "room \<Rightarrow> string \<Rightarrow> element list \<Rightarrow> string \<Rightarrow> string \<Rightarrow> tape \<Rightarrow> room \<times> tape" where
  "submit room sid els desc img t =
     (case (if roundType room = missing
            then (case randomElement t of (e, t') \<Rightarrow> (els @ [e], t'))
            else (els, t)) of
        (els', t1) \<Rightarrow>
          let room1 = room\<lparr>pending := pending room @ [human_entry room sid els' desc img]\<rparr>
          in if length (players room1) = 1 \<and> length (pending room1) = 1
             then createAIPlayer room1 t1 else (room1, t1))"

definition winnerOf :: "submission \<Rightarrow> submission \<Rightarrow> string" where
  "winnerOf a b =
     (let winner = ''tie'';
          winner = (if power' a > power' b then playerId a else winner);
          winner = (if power' b > power' a then playerId b else winner)
      in winner)"

text \<open>
  \<^verbatim>\<open>if (winner !== 'tie') { const w = room.players.find(p => p.id === winner);
  if (w) w.score++; }\<close>
\<close>

definition award :: "string \<Rightarrow> player list \<Rightarrow> player list" where
  "award winner ps =
     (if winner \<noteq> ''tie'' then
        (case findIndex (\<lambda>p. id' p = winner) ps of
           None \<Rightarrow> ps
         | Some i \<Rightarrow> ps[i := (ps ! i)\<lparr>score := score (ps ! i) + 1\<rparr>])
      else ps)"

definition narrative :: "submission \<Rightarrow> submission \<Rightarrow> string" where
  "narrative a b =
     name' a @ '' ('' @ join '' + '' (elements a) @ '') vs '' @
     name' b @ '' ('' @ join '' + '' (elements b) @ '')''"

text \<open>
  The second part, entered when \<^verbatim>\<open>room.pending.length >= 2\<close>. \<open>a\<close> and \<open>b\<close> are the
  objects \<^verbatim>\<open>room.pending[0]\<close> and \<^verbatim>\<open>room.pending[1]\<close> themselves, so the powers that
  \<^verbatim>\<open>evaluateAbilities\<close> assigns are written to the pending list. Nothing of this part
  happens when \<^verbatim>\<open>evaluateAbilities\<close> does not return.
\<close>

definition battle ::
  "string \<Rightarrow> room \<Rightarrow> arbitration \<Rightarrow> tape \<Rightarrow> (emit list \<times> room) option" where
  "battle roomCode room orc t =
     (case evaluateAbilities orc (pending room ! 0) (pending room ! 1) t of
        None \<Rightarrow> None
      | Some ((a, b), t') \<Rightarrow>
          let room1 = room\<lparr>pending := (pending room)[0 := a, 1 := b]\<rparr>;
              winner = winnerOf a b;
              room2 = room1\<lparr>players := award winner (players room1)\<rparr>
          in Some ([To_room roomCode
                 (battleResult (currentRound room2) winner a b (scores room2) (narrative a b))],
              room2))"

text \<open>
  The handler runs to its end here: the events that could be handled while it waits
  for the completion service are not interleaved with it. When the service never
  answers, the handler stays at its \<^verbatim>\<open>await\<close>, and what it did before is all it does.
  On a value inherited from
  \<^verbatim>\<open>Object.prototype\<close>, \<^verbatim>\<open>room.pending.push(...)\<close> throws (there is no \<^verbatim>\<open>pending\<close>, or
  there is one and \<^verbatim>\<open>room.players.find\<close> throws while the argument is built), and
  the \<^verbatim>\<open>catch\<close> reports to the sender.
\<close>

definition playerChoice ::
  "server \<Rightarrow> string \<Rightarrow> string \<Rightarrow> element list \<Rightarrow> string \<Rightarrow> string \<Rightarrow> arbitration \<Rightarrow> tape \<Rightarrow>
   (emit list \<times> server) completion" where
  "playerChoice s sid roomCode els desc img orc t =
     (case lobbies_get s roomCode of
        Absent \<Rightarrow> Normal ([], s)
      | Inherited \<Rightarrow> Normal ([To_socket sid (errorMessage ''Problem submitting choice'')], s)
      | Own room \<Rightarrow>
          (case submit room sid els desc img t of
             (room1, t1) \<Rightarrow>
               if length (pending room1) \<ge> 2 then
                 (case battle roomCode room1 orc t1 of
                    Some (out, room2) \<Rightarrow>
                      Normal (out, s\<lparr>lobbies := registry_update roomCode room2 (lobbies s)\<rparr>)
                  | None \<Rightarrow>
                      Normal ([], s\<lparr>lobbies := registry_update roomCode room1 (lobbies s)\<rparr>))
               else Normal ([], s\<lparr>lobbies := registry_update roomCode room1 (lobbies s)\<rparr>)))"

text \<open>\<^verbatim>\<open>try { ... } catch (err) { console.error(...) }\<close>\<close>

definition catch_log :: "'a completion \<Rightarrow> 'a completion" where
  "catch_log c = (case c of Throws x \<Rightarrow> Normal x | Normal x \<Rightarrow> Normal x)"

text \<open>
  On a value inherited from \<^verbatim>\<open>Object.prototype\<close>, \<^verbatim>\<open>room.currentRound\<close> is \<^verbatim>\<open>undefined\<close>
  or \<^verbatim>\<open>NaN\<close>, and \<^verbatim>\<open>room.currentRound >= 5\<close> is false.
\<close>

definition requestNextRound :: "server \<Rightarrow> string \<Rightarrow> tape \<Rightarrow> (emit list \<times> server) completion" where
  "requestNextRound s roomCode t =
     catch_log
       (case lobbies_get s roomCode of
          Absent \<Rightarrow> Normal ([], s)
        | Inherited \<Rightarrow> startRound s roomCode t
        | Own room \<Rightarrow>
            if currentRound room \<ge> 5 then
              Normal ([To_room roomCode (gameOver (scores room))],
                      s\<lparr>lobbies := registry_delete roomCode (lobbies s)\<rparr>)
            else startRound s roomCode t)"

text \<open>
  The loop of the \<^verbatim>\<open>disconnect\<close> handler over \<^verbatim>\<open>Object.keys(lobbies)\<close>; it ends at the
  first room that has a player of the socket.
\<close>

fun disconnect_loop :: "string \<Rightarrow> tape \<Rightarrow> registry \<Rightarrow> server \<Rightarrow> emit list \<times> server" where
  "disconnect_loop sid t [] s = ([], s)"
| "disconnect_loop sid t ((code, room) # rest) s =
     (case findIndex (\<lambda>p. id' p = sid) (players room) of
        None \<Rightarrow> disconnect_loop sid t rest s
      | Some idx \<Rightarrow>
          let room1 = room\<lparr>players := splice1 idx (players room)\<rparr>;
              out = [To_room code (playerLeft sid)]
          in if length (players room1) = 0 then
               (out, s\<lparr>lobbies := registry_delete code (lobbies s)\<rparr>)
             else if length (players room1) = 1 then
               (out, s\<lparr>lobbies := registry_update code (fst (createAIPlayer room1 t)) (lobbies s)\<rparr>)
             else (out, s\<lparr>lobbies := registry_update code room1 (lobbies s)\<rparr>))"

definition disconnect :: "server \<Rightarrow> string \<Rightarrow> tape \<Rightarrow> (emit list \<times> server) completion" where
  "disconnect s sid t = Normal (disconnect_loop sid t (lobbies s) s)"

section \<open>The server as a state machine\<close>

text \<open>
  An event carries what the client sent, the socket it came from, and what the
  environment contributes while it is handled: the generated room code, the tape of
  random numbers, the outcome of the call to the completion service.
\<close>

datatype event =
    CreateRoom string string string
  | JoinRoom string string string
  | StartGame string tape
  | PlayerChoice string string "element list" string string arbitration tape
  | RequestNextRound string tape
  | Disconnect string tape

fun step :: "server \<Rightarrow> event \<Rightarrow> (emit list \<times> server) completion" where
  "step s (CreateRoom sid username roomCode) = createRoom s sid username roomCode"
| "step s (JoinRoom sid username roomCode) = joinRoom s sid username roomCode"
| "step s (StartGame roomCode t) = startGame s roomCode t"
| "step s (PlayerChoice sid roomCode els desc img orc t) =
     playerChoice s sid roomCode els desc img orc t"
| "step s (RequestNextRound roomCode t) = requestNextRound s roomCode t"
| "step s (Disconnect sid t) = disconnect s sid t"

text \<open>
  A sequence of events; nothing in the server catches an exception that leaves a
  handler, so the run ends there.
\<close>

fun run :: "server \<Rightarrow> event list \<Rightarrow> (emit list \<times> server) completion" where
  "run s [] = Normal ([], s)"
| "run s (e # es) =
     (case step s e of
        Throws x \<Rightarrow> Throws x
      | Normal (out, s') \<Rightarrow>
          (case run s' es of
             Normal (out', s'') \<Rightarrow> Normal (out @ out', s'')
           | Throws (out', s'') \<Rightarrow> Throws (out @ out', s'')))"

definition initial :: server where
  "initial = \<lparr>lobbies = [], polluted = False\<rparr>"

section \<open>Random numbers and the element pool: properties\<close>

lemma floor_times_less: "0 < n \<Longrightarrow> floor_times r n < n"
proof (transfer, clarify)
  fix n :: nat and r :: rat
  assume n: "0 < n" and r0: "0 \<le> r" and r1: "r < 1"
  have "r * of_nat n < of_nat n"
    using n r1 by simp
  then have "r * of_nat n < of_int (int n)"
    by simp
  then have "\<lfloor>r * of_nat n\<rfloor> < int n"
    by (simp only: floor_less_iff)
  moreover have "0 \<le> \<lfloor>r * of_nat n\<rfloor>"
    using r0 by simp
  ultimately show "nat \<lfloor>r * of_nat n\<rfloor> < n"
    by linarith
qed

lemma floor_times_draw: "k < d \<Longrightarrow> floor_times (draw k d) n = k * n div d"
proof (transfer, simp)
  fix k d n :: nat
  assume "k < d"
  have "(of_nat k :: rat) * of_nat n / of_nat d = of_nat (k * n) / of_nat d"
    by simp
  then have "\<lfloor>(of_nat k :: rat) * of_nat n / of_nat d\<rfloor> = int (k * n div d)"
    by (simp only: floor_divide_of_nat_eq)
  then show "nat \<lfloor>(of_nat k :: rat) * of_nat n / of_nat d\<rfloor> = k * n div d"
    by simp
qed

lemma rnd_less_draw: "k < d \<Longrightarrow> rnd_less (draw k d) q \<longleftrightarrow> of_nat k / of_nat d < q"
  by transfer simp

declare randomElements_loop.simps [simp del]

text \<open>
  The defining equations, to run the model on concrete events. The equation of the
  loop stays out of the simplifier otherwise: it rewrites the loop in terms of itself.
\<close>

lemmas eval_simps =
  initial_def createRoom_def joinRoom_def startGame_def startRound_def playerChoice_def
  requestNextRound_def disconnect_def catch_log_def lobbies_get_def Object_prototype_keys_def
  registry_put_def registry_update_def registry_delete_def isArrayIndex_def decimal_def
  randomElements_def randomElements_loop.simps randomElement_def ELEMENTS_def splice1_def
  Math_random_def floor_times_draw rnd_less_draw scores_def submit_def human_entry_def
  createAIPlayer_def battle_def evaluateAbilities_def winnerOf_def award_def narrative_def
  Let_def


lemma splice1_distinct: "distinct xs \<Longrightarrow> distinct (splice1 i xs)"
  unfolding splice1_def
  by (simp add: set_take_disj_set_drop_if_distinct)

lemma splice1_set:
  assumes "distinct xs" "i < length xs"
  shows "set (splice1 i xs) = set xs - {xs ! i}"
proof -
  have xs: "xs = take i xs @ xs ! i # drop (Suc i) xs"
    using assms(2) by (simp add: id_take_nth_drop)
  then have "distinct (take i xs @ xs ! i # drop (Suc i) xs)"
    using assms(1) by simp
  then have "xs ! i \<notin> set (take i xs)" "xs ! i \<notin> set (drop (Suc i) xs)"
    by auto
  moreover have "set xs = set (take i xs) \<union> {xs ! i} \<union> set (drop (Suc i) xs)"
    by (subst xs) auto
  ultimately show ?thesis
    unfolding splice1_def by auto
qed

lemma splice1_length: "i < length xs \<Longrightarrow> length (splice1 i xs) = length xs - 1"
  unfolding splice1_def by simp

lemma loop_spec:
  "distinct copy \<Longrightarrow>
   \<exists>picked. fst (randomElements_loop i count copy result t) = result @ picked \<and>
     distinct picked \<and> set picked \<subseteq> set copy \<and>
     length picked = min (count - i) (length copy)"
proof (induction i count copy result t rule: randomElements_loop.induct)
  case (1 i count copy result t)
  show ?case
  proof (cases "i < count \<and> copy \<noteq> []")
    case True
    define idx where "idx = floor_times (shd t) (length copy)"
    have idx: "idx < length copy"
      using True by (simp add: idx_def floor_times_less)
    have d: "distinct (splice1 idx copy)"
      using "1.prems" by (rule splice1_distinct)
    have mr: "(shd t, stl t) = Math_random t"
      by (simp add: Math_random_def)
    from "1.IH" [OF True mr idx_def d]
    obtain picked where p:
      "fst (randomElements_loop (Suc i) count (splice1 idx copy) (result @ [copy ! idx]) (stl t)) =
         (result @ [copy ! idx]) @ picked"
      "distinct picked" "set picked \<subseteq> set (splice1 idx copy)"
      "length picked = min (count - Suc i) (length (splice1 idx copy))"
      by auto
    have s: "set (splice1 idx copy) = set copy - {copy ! idx}"
      using "1.prems" idx by (rule splice1_set)
    have "fst (randomElements_loop i count copy result t) = result @ (copy ! idx # picked)"
      using True p(1) by (subst randomElements_loop.simps) (simp add: Math_random_def idx_def Let_def)
    moreover have "distinct (copy ! idx # picked)"
      using p(2,3) s by auto
    moreover have "set (copy ! idx # picked) \<subseteq> set copy"
      using p(3) s idx by auto
    moreover have "length (copy ! idx # picked) = min (count - i) (length copy)"
      using p(4) True idx by (simp add: splice1_length) linarith
    ultimately show ?thesis
      by blast
  next
    case False
    then have "fst (randomElements_loop i count copy result t) = result @ []"
      by (subst randomElements_loop.simps) (simp only: if_False fst_conv append_Nil2)
    moreover have "min (count - i) (length copy) = 0"
      using False by auto
    ultimately show ?thesis
      by (intro exI [of _ "[]"]) simp
  qed
qed

lemma distinct_ELEMENTS: "distinct ELEMENTS"
  by (simp add: ELEMENTS_def)

lemma length_ELEMENTS: "length ELEMENTS = 10"
  by (simp add: ELEMENTS_def)

lemma randomElements_spec:
  "length (fst (randomElements n t)) = min n 10 \<and> distinct (fst (randomElements n t)) \<and>
   set (fst (randomElements n t)) \<subseteq> set ELEMENTS"
  using loop_spec [OF distinct_ELEMENTS, of 0 n "[]" t]
  by (auto simp: randomElements_def length_ELEMENTS)

lemma randomElements_full:
  assumes "10 \<le> n"
  shows "set (fst (randomElements n t)) = set ELEMENTS"
proof -
  let ?r = "fst (randomElements n t)"
  have "card (set ?r) = length ?r"
    using randomElements_spec by (simp add: distinct_card)
  also have "\<dots> = card (set ELEMENTS)"
    using assms randomElements_spec [of n t] by (simp add: distinct_card distinct_ELEMENTS length_ELEMENTS)
  finally show ?thesis
    using randomElements_spec [of n t] by (simp add: card_subset_eq)
qed

text \<open>
  C8: for every \<open>n\<close> and whatever the random numbers are, \<open>randomElements n\<close> returns
  \<open>min n 10\<close> elements, pairwise distinct, all of the catalog, which has ten elements;
  when \<open>n\<close> is the size of the catalog or more, it returns every element of the
  catalog (and no error: the function is total).
\<close>

theorem C8_randomElements:
  "length ELEMENTS = 10 \<and>
   length (fst (randomElements n t)) = min n (length ELEMENTS) \<and>
   distinct (fst (randomElements n t)) \<and>
   set (fst (randomElements n t)) \<subseteq> set ELEMENTS \<and>
   set (fst (randomElements (length ELEMENTS + k) t)) = set ELEMENTS"
  using randomElements_spec [of n t] randomElements_full [of "length ELEMENTS + k" t]
  by (simp add: length_ELEMENTS)

section \<open>Arbitration\<close>

lemma floor_times_101: "floor_times r 101 \<le> 100"
  using floor_times_less [of 101 r] by simp


lemma evaluateAbilities_fields:
  "evaluateAbilities orc a b t = Some ((a', b'), t') \<Longrightarrow>
   a' = a\<lparr>power' := power' a'\<rparr> \<and> b' = b\<lparr>power' := power' b'\<rparr> \<and> t' = stl (stl t)"
  by (auto simp: evaluateAbilities_def Math_random_def Let_def split: arbitration.splits if_splits)



section \<open>Battle resolution\<close>

lemma findIndex_Some:
  "findIndex P xs = Some i \<Longrightarrow> i < length xs \<and> P (xs ! i) \<and> (\<forall>j<i. \<not> P (xs ! j))"
proof (induction xs arbitrary: i)
  case Nil
  then show ?case by simp
next
  case (Cons x xs)
  show ?case
  proof (cases "P x")
    case True
    with Cons.prems show ?thesis by simp
  next
    case False
    with Cons.prems obtain k where k: "findIndex P xs = Some k" "i = Suc k"
      by (auto split: option.splits)
    from Cons.IH [OF k(1)] False k(2) show ?thesis
      by (auto simp: less_Suc_eq_0_disj)
  qed
qed

lemma findIndex_None: "findIndex P xs = None \<longleftrightarrow> (\<forall>x \<in> set xs. \<not> P x)"
  by (induction xs) (auto split: option.splits)








section \<open>The registry: properties\<close>

lemma map_of_registry_update:
  "map_of (registry_update code room l) c =
     (if c = code \<and> map_of l code \<noteq> None then Some room else map_of l c)"
  unfolding registry_update_def by (induction l) auto

lemma keys_registry_update: "map fst (registry_update code room l) = map fst l"
  unfolding registry_update_def by (induction l) auto

lemma map_of_registry_delete:
  "map_of (registry_delete code l) c = (if c = code then None else map_of l c)"
  unfolding registry_delete_def by (induction l) auto

lemma distinct_registry_delete:
  "distinct (map fst l) \<Longrightarrow> distinct (map fst (registry_delete code l))"
  unfolding registry_delete_def by (induction l) auto

lemma keys_insertIndexKey: "set (map fst (insertIndexKey k v l)) = insert k (set (map fst l))"
proof (induction l)
  case Nil
  then show ?case by simp
next
  case (Cons x l)
  obtain k' v' where x: "x = (k', v')"
    by (cases x)
  show ?case
  proof (cases "isArrayIndex k' \<and> decimal k' < decimal k")
    case True
    then have "insertIndexKey k v (x # l) = (k', v') # insertIndexKey k v l"
      by (simp add: x)
    then show ?thesis
      using Cons.IH by (simp add: x insert_commute)
  next
    case False
    then have "insertIndexKey k v (x # l) = (k, v) # (k', v') # l"
      by (auto simp: x)
    then show ?thesis
      by (simp add: x)
  qed
qed

lemma distinct_insertIndexKey:
  "distinct (map fst l) \<Longrightarrow> k \<notin> set (map fst l) \<Longrightarrow> distinct (map fst (insertIndexKey k v l))"
proof (induction l)
  case Nil
  then show ?case by simp
next
  case (Cons x l)
  obtain k' v' where x: "x = (k', v')"
    by (cases x)
  from Cons.prems have "k' \<notin> set (map fst l)" "k' \<noteq> k" "distinct (map fst l)" "k \<notin> set (map fst l)"
    by (auto simp: x)
  with Cons.IH show ?case
    using keys_insertIndexKey [of k v l] by (auto simp: x)
qed

lemma map_of_insertIndexKey:
  "k \<notin> set (map fst l) \<Longrightarrow> map_of (insertIndexKey k v l) c = (if c = k then Some v else map_of l c)"
  by (induction l) auto

lemma map_of_registry_put:
  "map_of (registry_put code room l) c = (if c = code then Some room else map_of l c)"
proof (cases "code \<in> set (map fst l)")
  case True
  then have "map_of l code \<noteq> None"
    by (simp add: map_of_eq_None_iff)
  with True show ?thesis
    by (simp add: registry_put_def map_of_registry_update)
next
  case False
  then have "map_of l code = None"
    by (simp add: map_of_eq_None_iff)
  with False show ?thesis
    by (auto simp: registry_put_def map_of_insertIndexKey map_add_def split: option.splits)
qed

lemma distinct_registry_put:
  "distinct (map fst l) \<Longrightarrow> distinct (map fst (registry_put code room l))"
  by (auto simp: registry_put_def keys_registry_update distinct_insertIndexKey)

lemma lobbies_get_Own: "lobbies_get s code = Own room \<longleftrightarrow> map_of (lobbies s) code = Some room"
  by (auto simp: lobbies_get_def split: option.splits)

lemma lobbies_get_Absent:
  "lobbies_get s code = Absent \<longleftrightarrow>
     map_of (lobbies s) code = None \<and> code \<notin> set Object_prototype_keys \<and>
     \<not> (polluted s \<and> code \<in> set [''pending'', ''roundType''])"
  by (auto simp: lobbies_get_def split: option.splits)

lemma generated_code_not_inherited:
  "generated_code code \<Longrightarrow>
     code \<notin> set Object_prototype_keys \<and> code \<notin> set [''pending'', ''roundType'']"
  by (auto simp: generated_code_def Object_prototype_keys_def)

section \<open>Room codes that are not registered\<close>

text \<open>
  A room code that is neither registered nor the name of an inherited property:
  \<^verbatim>\<open>joinRoom\<close> tells the sender, the other three do nothing.
\<close>

lemma absent_roomCode:
  assumes "lobbies_get s roomCode = Absent"
  shows "joinRoom s sid username roomCode =
           Normal ([To_socket sid (errorMessage ''Room not found'')], s)"
    and "startGame s roomCode t = Normal ([], s)"
    and "playerChoice s sid roomCode els desc img orc t = Normal ([], s)"
    and "requestNextRound s roomCode t = Normal ([], s)"
  using assms
  by (simp_all add: joinRoom_def startGame_def startRound_def playerChoice_def
      requestNextRound_def catch_log_def)

text \<open>
  C9, where the code departs from it: \<^verbatim>\<open>constructor\<close> is no room code, yet
  \<^verbatim>\<open>lobbies['constructor']\<close> is the function \<^verbatim>\<open>Object\<close>, which passes \<^verbatim>\<open>if (!room) return\<close>.
  On the server that has just started, \<^verbatim>\<open>playerChoice\<close> for it sends an \<^verbatim>\<open>errorMessage\<close>
  to the sender, an exception leaves the handler of \<^verbatim>\<open>startGame\<close>, and \<^verbatim>\<open>joinRoom\<close>
  reports \<^verbatim>\<open>Could not join room\<close>; \<^verbatim>\<open>requestNextRound\<close> alone stays silent.
\<close>

theorem C9_inherited_roomCode:
  "playerChoice initial sid ''constructor'' els desc img orc t =
     Normal ([To_socket sid (errorMessage ''Problem submitting choice'')], initial) \<and>
   startGame initial ''constructor'' t = Throws ([], initial) \<and>
   joinRoom initial sid username ''constructor'' =
     Normal ([To_socket sid (errorMessage ''Could not join room'')], initial) \<and>
   requestNextRound initial ''constructor'' t = Normal ([], initial)"
  by (simp add: playerChoice_def startGame_def startRound_def joinRoom_def requestNextRound_def
      catch_log_def lobbies_get_def initial_def Object_prototype_keys_def)

section \<open>What the handlers do to a room\<close>

lemma randomElement_catalog: "fst (randomElement t) \<in> set ELEMENTS"
proof -
  obtain xs t' where r: "randomElements 1 t = (xs, t')"
    by (cases "randomElements 1 t")
  from randomElements_spec [of 1 t] r have "length xs = 1" "set xs \<subseteq> set ELEMENTS"
    by simp_all
  then have "xs ! 0 \<in> set ELEMENTS"
    by (cases xs) auto
  with r show ?thesis
    by (simp add: randomElement_def)
qed

lemma createAIPlayer_room:
  assumes "createAIPlayer room t = (room', t')"
  shows "players room' = players room \<and> currentRound room' = currentRound room \<and>
         roundType room' = roundType room \<and>
         (\<exists>ai. pending room' = pending room @ [ai] \<and> playerId ai = ''AI'' \<and>
            name' ai = ''AI Bot'' \<and> length (elements ai) = 2 \<and>
            set (elements ai) \<subseteq> set ELEMENTS \<and> imageUrl ai = [] \<and> power' ai \<le> 100)"
proof -
  obtain e1 t1 where e1: "randomElement t = (e1, t1)"
    by (cases "randomElement t")
  obtain e2 t2 where e2: "randomElement t1 = (e2, t2)"
    by (cases "randomElement t1")
  have "e1 \<in> set ELEMENTS" "e2 \<in> set ELEMENTS"
    using randomElement_catalog [of t] randomElement_catalog [of t1] e1 e2 by simp_all
  with assms e1 e2 show ?thesis
    by (auto simp: createAIPlayer_def Math_random_def floor_times_101)
qed

lemma submit_room:
  assumes "submit room sid els desc img t = (room1, t1)"
  shows "players room1 = players room \<and> currentRound room1 = currentRound room \<and>
         roundType room1 = roundType room \<and>
         (\<exists>els'. (if roundType room = missing
                   then \<exists>e \<in> set ELEMENTS. els' = els @ [e] else els' = els) \<and>
            (if length (players room) = 1 \<and> pending room = []
             then \<exists>ai. pending room1 = [human_entry room sid els' desc img, ai] \<and>
                    playerId ai = ''AI'' \<and> name' ai = ''AI Bot'' \<and>
                    length (elements ai) = 2 \<and> set (elements ai) \<subseteq> set ELEMENTS \<and>
                    imageUrl ai = [] \<and> power' ai \<le> 100
             else pending room1 = pending room @ [human_entry room sid els' desc img]))"
proof -
  define els' where "els' = (if roundType room = missing then els @ [fst (randomElement t)] else els)"
  define t0 where "t0 = (if roundType room = missing then snd (randomElement t) else t)"
  define roomA where "roomA = room\<lparr>pending := pending room @ [human_entry room sid els' desc img]\<rparr>"
  have pad: "(if roundType room = missing
              then (case randomElement t of (e, t') \<Rightarrow> (els @ [e], t')) else (els, t)) = (els', t0)"
    by (simp add: els'_def t0_def split: prod.splits)
  have sub: "submit room sid els desc img t =
      (if length (players roomA) = 1 \<and> length (pending roomA) = 1
       then createAIPlayer roomA t0 else (roomA, t0))"
    unfolding submit_def pad by (simp add: roomA_def Let_def)
  have els: "if roundType room = missing then \<exists>e \<in> set ELEMENTS. els' = els @ [e] else els' = els"
    using randomElement_catalog [of t] by (simp add: els'_def)
  show ?thesis
  proof (cases "length (players room) = 1 \<and> pending room = []")
    case True
    then have "createAIPlayer roomA t0 = (room1, t1)"
      using assms sub by (simp add: roomA_def)
    from createAIPlayer_room [OF this] True els show ?thesis
      by (auto simp: roomA_def)
  next
    case False
    then have "room1 = roomA"
      using assms sub by (auto simp: roomA_def)
    with False els show ?thesis
      by (auto simp: roomA_def)
  qed
qed

lemma battle_room:
  assumes "battle roomCode room orc t = Some (out, room')"
  shows "\<exists>a b t'. evaluateAbilities orc (pending room ! 0) (pending room ! 1) t =
             Some ((a, b), t') \<and>
           out = [To_room roomCode (battleResult (currentRound room) (winnerOf a b) a b
                    (scores room') (narrative a b))] \<and>
           room' = room\<lparr>pending := (pending room)[0 := a, 1 := b],
                     players := award (winnerOf a b) (players room)\<rparr>"
  using assms by (auto simp: battle_def Let_def split: option.splits prod.splits)

lemma battle_returns:
  "battle roomCode room orc t = None \<longleftrightarrow> orc = Stalled"
  by (auto simp: battle_def evaluateAbilities_def Math_random_def Let_def
      split: option.splits arbitration.splits)

lemma length_award: "length (award w ps) = length ps"
  by (simp add: award_def split: option.splits)

section \<open>What the handlers do to the registry\<close>

text \<open>
  Every handler but \<^verbatim>\<open>createRoom\<close> leaves the registry as it is, deletes one room, or
  writes to one registered room without lowering its round.
\<close>

lemma startRound_effect:
  assumes "startRound s code t = Normal (out, s') \<or> startRound s code t = Throws (out, s')"
  shows "lobbies s' = lobbies s \<or>
         (\<exists>room room'. map_of (lobbies s) code = Some room \<and>
            lobbies s' = registry_update code room' (lobbies s) \<and>
            currentRound room \<le> currentRound room')"
proof (cases "lobbies_get s code")
  case Absent
  with assms show ?thesis
    by (auto simp: startRound_def)
next
  case Inherited
  with assms show ?thesis
    by (auto simp: startRound_def)
next
  case (Own room)
  then have m: "map_of (lobbies s) code = Some room"
    by (simp add: lobbies_get_Own)
  from assms Own have "\<exists>room'. lobbies s' = registry_update code room' (lobbies s) \<and>
      currentRound room \<le> currentRound room'"
    by (auto simp: startRound_def Let_def split: prod.splits if_splits)
  with m show ?thesis
    by blast
qed

lemma joinRoom_effect:
  assumes "joinRoom s sid username code = Normal (out, s') \<or>
           joinRoom s sid username code = Throws (out, s')"
  shows "lobbies s' = lobbies s \<or>
         (\<exists>room room'. map_of (lobbies s) code = Some room \<and>
            lobbies s' = registry_update code room' (lobbies s) \<and>
            currentRound room \<le> currentRound room')"
proof (cases "lobbies_get s code")
  case Absent
  with assms show ?thesis
    by (auto simp: joinRoom_def)
next
  case Inherited
  with assms show ?thesis
    by (auto simp: joinRoom_def)
next
  case (Own room)
  then have m: "map_of (lobbies s) code = Some room"
    by (simp add: lobbies_get_Own)
  from assms Own have "\<exists>room'. lobbies s' = registry_update code room' (lobbies s) \<and>
      currentRound room \<le> currentRound room'"
    by (auto simp: joinRoom_def Let_def)
  with m show ?thesis
    by blast
qed

lemma playerChoice_effect:
  assumes "playerChoice s sid code els desc img orc t = Normal (out, s') \<or>
           playerChoice s sid code els desc img orc t = Throws (out, s')"
  shows "lobbies s' = lobbies s \<or>
         (\<exists>room room'. map_of (lobbies s) code = Some room \<and>
            lobbies s' = registry_update code room' (lobbies s) \<and>
            currentRound room \<le> currentRound room')"
proof (cases "lobbies_get s code")
  case Absent
  with assms show ?thesis
    by (auto simp: playerChoice_def)
next
  case Inherited
  with assms show ?thesis
    by (auto simp: playerChoice_def)
next
  case (Own room)
  then have m: "map_of (lobbies s) code = Some room"
    by (simp add: lobbies_get_Own)
  obtain room1 t1 where sb: "submit room sid els desc img t = (room1, t1)"
    by (cases "submit room sid els desc img t")
  from submit_room [OF sb] have r1: "currentRound room1 = currentRound room"
    by simp
  have quiet: ?thesis if "lobbies s' = registry_update code room1 (lobbies s)"
  proof -
    from that have "map_of (lobbies s) code = Some room \<and>
        lobbies s' = registry_update code room1 (lobbies s) \<and>
        currentRound room \<le> currentRound room1"
      using m r1 by simp
    then show ?thesis
      by blast
  qed
  show ?thesis
  proof (cases "2 \<le> length (pending room1)")
    case True
    show ?thesis
    proof (cases "battle code room1 orc t1")
      case None
      with assms Own sb True have "lobbies s' = registry_update code room1 (lobbies s)"
        by (auto simp: playerChoice_def)
      then show ?thesis
        by (rule quiet)
    next
      case (Some x)
      obtain out2 room2 where bt: "battle code room1 orc t1 = Some (out2, room2)"
        using Some by (cases x) simp
      from battle_room [OF bt] have "currentRound room2 = currentRound room1"
        by auto
      moreover from assms Own sb True bt
      have "lobbies s' = registry_update code room2 (lobbies s)"
        by (auto simp: playerChoice_def)
      ultimately have "map_of (lobbies s) code = Some room \<and>
          lobbies s' = registry_update code room2 (lobbies s) \<and>
          currentRound room \<le> currentRound room2"
        using m r1 by simp
      then show ?thesis
        by blast
    qed
  next
    case False
    with assms Own sb have "lobbies s' = registry_update code room1 (lobbies s)"
      by (auto simp: playerChoice_def)
    then show ?thesis
      by (rule quiet)
  qed
qed

lemma requestNextRound_effect:
  assumes "requestNextRound s code t = Normal (out, s') \<or>
           requestNextRound s code t = Throws (out, s')"
  shows "lobbies s' = lobbies s \<or> lobbies s' = registry_delete code (lobbies s) \<or>
         (\<exists>room room'. map_of (lobbies s) code = Some room \<and>
            lobbies s' = registry_update code room' (lobbies s) \<and>
            currentRound room \<le> currentRound room')"
proof (cases "lobbies_get s code")
  case Absent
  with assms show ?thesis
    by (auto simp: requestNextRound_def catch_log_def)
next
  case Inherited
  with assms have "startRound s code t = Normal (out, s') \<or> startRound s code t = Throws (out, s')"
    by (auto simp: requestNextRound_def catch_log_def split: completion.splits)
  from startRound_effect [OF this] show ?thesis
    by blast
next
  case (Own room)
  show ?thesis
  proof (cases "5 \<le> currentRound room")
    case True
    with assms Own show ?thesis
      by (auto simp: requestNextRound_def catch_log_def)
  next
    case False
    with assms Own
    have "startRound s code t = Normal (out, s') \<or> startRound s code t = Throws (out, s')"
      by (auto simp: requestNextRound_def catch_log_def split: completion.splits)
    from startRound_effect [OF this] show ?thesis
      by blast
  qed
qed

lemma disconnect_loop_effect:
  assumes "disconnect_loop sid t l s = (out, s')"
    and "\<forall>(k, r) \<in> set l. map_of (lobbies s) k = Some r"
  shows "lobbies s' = lobbies s \<or> (\<exists>code. lobbies s' = registry_delete code (lobbies s)) \<or>
         (\<exists>code room room'. map_of (lobbies s) code = Some room \<and>
            lobbies s' = registry_update code room' (lobbies s) \<and>
            currentRound room \<le> currentRound room')"
  using assms
proof (induction l)
  case Nil
  then show ?case by simp
next
  case (Cons x l)
  obtain code room where x: "x = (code, room)"
    by (cases x)
  from Cons.prems(2) have m: "map_of (lobbies s) code = Some room"
    and rest: "\<forall>(k, r) \<in> set l. map_of (lobbies s) k = Some r"
    by (auto simp: x)
  show ?case
  proof (cases "findIndex (\<lambda>p. id' p = sid) (players room)")
    case None
    with Cons.prems(1) have "disconnect_loop sid t l s = (out, s')"
      by (simp add: x)
    from Cons.IH [OF this rest] show ?thesis .
  next
    case (Some idx)
    let ?room1 = "room\<lparr>players := splice1 idx (players room)\<rparr>"
    obtain roomA tA where ai: "createAIPlayer ?room1 t = (roomA, tA)"
      by (cases "createAIPlayer ?room1 t")
    from createAIPlayer_room [OF ai] have rA: "currentRound room \<le> currentRound roomA"
      by simp
    have r1: "currentRound room \<le> currentRound ?room1"
      by simp
    from Cons.prems(1) Some ai
    have "lobbies s' = registry_delete code (lobbies s) \<or>
        lobbies s' = registry_update code roomA (lobbies s) \<or>
        lobbies s' = registry_update code ?room1 (lobbies s)"
      by (auto simp: x Let_def split: if_splits)
    with m rA r1 show ?thesis
      by blast
  qed
qed

lemma registry_entries:
  "distinct (map fst l) \<Longrightarrow> \<forall>(k, r) \<in> set l. map_of l k = Some r"
  by auto

lemma step_effect:
  assumes "step s e = Normal (out, s') \<or> step s e = Throws (out, s')"
    and "distinct (map fst (lobbies s))"
  shows "lobbies s' = lobbies s \<or> (\<exists>code. lobbies s' = registry_delete code (lobbies s)) \<or>
         (\<exists>code room room'. map_of (lobbies s) code = Some room \<and>
            lobbies s' = registry_update code room' (lobbies s) \<and>
            currentRound room \<le> currentRound room') \<or>
         (\<exists>sid username code room. e = CreateRoom sid username code \<and>
            lobbies s' = registry_put code room (lobbies s))"
proof (cases e)
  case (CreateRoom sid username code)
  with assms(1) have "\<exists>room. lobbies s' = registry_put code room (lobbies s)"
    by (auto simp: createRoom_def)
  with CreateRoom show ?thesis
    by blast
next
  case (JoinRoom sid username code)
  with assms(1) have "joinRoom s sid username code = Normal (out, s') \<or>
      joinRoom s sid username code = Throws (out, s')"
    by simp
  from joinRoom_effect [OF this]
  have "lobbies s' = lobbies s \<or>
      (\<exists>room room'. map_of (lobbies s) code = Some room \<and>
         lobbies s' = registry_update code room' (lobbies s) \<and>
         currentRound room \<le> currentRound room')"
    .
  then show ?thesis
    by blast
next
  case (StartGame code t)
  with assms(1) have "startRound s code t = Normal (out, s') \<or>
      startRound s code t = Throws (out, s')"
    by (simp add: startGame_def)
  from startRound_effect [OF this]
  have "lobbies s' = lobbies s \<or>
      (\<exists>room room'. map_of (lobbies s) code = Some room \<and>
         lobbies s' = registry_update code room' (lobbies s) \<and>
         currentRound room \<le> currentRound room')"
    .
  then show ?thesis
    by blast
next
  case (PlayerChoice sid code els desc img orc t)
  with assms(1) have "playerChoice s sid code els desc img orc t = Normal (out, s') \<or>
      playerChoice s sid code els desc img orc t = Throws (out, s')"
    by simp
  from playerChoice_effect [OF this]
  have "lobbies s' = lobbies s \<or>
      (\<exists>room room'. map_of (lobbies s) code = Some room \<and>
         lobbies s' = registry_update code room' (lobbies s) \<and>
         currentRound room \<le> currentRound room')"
    .
  then show ?thesis
    by blast
next
  case (RequestNextRound code t)
  with assms(1) have "requestNextRound s code t = Normal (out, s') \<or>
      requestNextRound s code t = Throws (out, s')"
    by simp
  from requestNextRound_effect [OF this]
  have "lobbies s' = lobbies s \<or> lobbies s' = registry_delete code (lobbies s) \<or>
      (\<exists>room room'. map_of (lobbies s) code = Some room \<and>
         lobbies s' = registry_update code room' (lobbies s) \<and>
         currentRound room \<le> currentRound room')"
    .
  then show ?thesis
    by blast
next
  case (Disconnect sid t)
  with assms(1) have "disconnect_loop sid t (lobbies s) s = (out, s')"
    by (auto simp: disconnect_def)
  from disconnect_loop_effect [OF this registry_entries [OF assms(2)]]
  have "lobbies s' = lobbies s \<or> (\<exists>code. lobbies s' = registry_delete code (lobbies s)) \<or>
      (\<exists>code room room'. map_of (lobbies s) code = Some room \<and>
         lobbies s' = registry_update code room' (lobbies s) \<and>
         currentRound room \<le> currentRound room')"
    .
  then show ?thesis
    by blast
qed

lemma step_distinct:
  assumes "step s e = Normal (out, s') \<or> step s e = Throws (out, s')"
    and "distinct (map fst (lobbies s))"
  shows "distinct (map fst (lobbies s'))"
  using step_effect [OF assms] assms(2)
  by (auto simp: keys_registry_update distinct_registry_delete distinct_registry_put
      simp del: distinct_map)

lemma step_currentRound:
  assumes "step s e = Normal (out, s') \<or> step s e = Throws (out, s')"
    and "distinct (map fst (lobbies s))"
    and "\<And>sid username. e \<noteq> CreateRoom sid username c"
    and "map_of (lobbies s') c = Some r'"
  shows "\<exists>r. map_of (lobbies s) c = Some r \<and> currentRound r \<le> currentRound r'"
proof -
  from step_effect [OF assms(1,2)] consider
    (same) "lobbies s' = lobbies s"
    | (del) code where "lobbies s' = registry_delete code (lobbies s)"
    | (upd) code room room' where "map_of (lobbies s) code = Some room"
        "lobbies s' = registry_update code room' (lobbies s)"
        "currentRound room \<le> currentRound room'"
    | (new) sid username code room where "e = CreateRoom sid username code"
        "lobbies s' = registry_put code room (lobbies s)"
    by blast
  then show ?thesis
  proof cases
    case same
    with assms(4) show ?thesis by simp
  next
    case del
    with assms(4) show ?thesis
      by (simp add: map_of_registry_delete split: if_splits)
  next
    case upd
    with assms(4) show ?thesis
      by (auto simp: map_of_registry_update split: if_splits)
  next
    case new
    with assms(3) have "code \<noteq> c"
      by blast
    with new assms(4) show ?thesis
      by (simp add: map_of_registry_put)
  qed
qed

text \<open>The keys of the registry are distinct in every state the server can reach.\<close>

lemma run_distinct:
  assumes "run s es = Normal (out, s') \<or> run s es = Throws (out, s')"
    and "distinct (map fst (lobbies s))"
  shows "distinct (map fst (lobbies s'))"
  using assms
proof (induction es arbitrary: s out)
  case Nil
  then show ?case by auto
next
  case (Cons e es)
  show ?case
  proof (cases "step s e")
    case (Throws x)
    with Cons.prems(1) have "step s e = Normal (out, s') \<or> step s e = Throws (out, s')"
      by simp
    from step_distinct [OF this Cons.prems(2)] show ?thesis .
  next
    case (Normal x)
    obtain o1 s1 where x: "x = (o1, s1)"
      by (cases x)
    with Normal have st: "step s e = Normal (o1, s1) \<or> step s e = Throws (o1, s1)"
      by simp
    from Cons.prems(1) Normal x
    obtain o2 where "run s1 es = Normal (o2, s') \<or> run s1 es = Throws (o2, s')"
      by (auto split: completion.splits)
    from Cons.IH [OF this step_distinct [OF st Cons.prems(2)]] show ?thesis .
  qed
qed

lemma reachable_distinct:
  "run initial es = Normal (out, s') \<or> run initial es = Throws (out, s') \<Longrightarrow>
   distinct (map fst (lobbies s'))"
  by (erule run_distinct) (simp add: initial_def)

section \<open>Rounds\<close>

lemma run_currentRound:
  assumes "run s es = Normal (out, s') \<or> run s es = Throws (out, s')"
    and "distinct (map fst (lobbies s))"
    and "\<forall>e \<in> set es. \<forall>sid username. e \<noteq> CreateRoom sid username c"
    and "map_of (lobbies s') c = Some r'"
  shows "\<exists>r. map_of (lobbies s) c = Some r \<and> currentRound r \<le> currentRound r'"
  using assms
proof (induction es arbitrary: s out)
  case Nil
  then show ?case by simp
next
  case (Cons e es)
  from Cons.prems(3) have e: "\<And>sid username. e \<noteq> CreateRoom sid username c"
    and es: "\<forall>e \<in> set es. \<forall>sid username. e \<noteq> CreateRoom sid username c"
    by simp_all
  show ?case
  proof (cases "step s e")
    case (Throws x)
    with Cons.prems(1) have "step s e = Throws (out, s')"
      by simp
    then have "step s e = Normal (out, s') \<or> step s e = Throws (out, s')"
      by simp
    from step_currentRound [OF this Cons.prems(2) e Cons.prems(4)] show ?thesis .
  next
    case (Normal x)
    obtain o1 s1 where x: "x = (o1, s1)"
      by (cases x)
    with Normal have st: "step s e = Normal (o1, s1) \<or> step s e = Throws (o1, s1)"
      by simp
    from Cons.prems(1) Normal x
    obtain o2 where "run s1 es = Normal (o2, s') \<or> run s1 es = Throws (o2, s')"
      by (auto split: completion.splits)
    from Cons.IH [OF this step_distinct [OF st Cons.prems(2)] es Cons.prems(4)]
    obtain r1 where r1: "map_of (lobbies s1) c = Some r1" "currentRound r1 \<le> currentRound r'"
      by blast
    from step_currentRound [OF st Cons.prems(2) e r1(1)] r1(2) show ?thesis
      by (meson order_trans)
  qed
qed

lemma startRound_Own:
  assumes "lobbies_get s code = Own room"
  shows "\<exists>type sets room'.
           room' = room\<lparr>currentRound := currentRound room + 1, pending := [], roundType := type\<rparr> \<and>
           startRound s code t =
             Normal ([To_room code (roundStart (currentRound room + 1) type sets (scores room))],
                     s\<lparr>lobbies := registry_update code room' (lobbies s)\<rparr>) \<and>
           lobbies_get (s\<lparr>lobbies := registry_update code room' (lobbies s)\<rparr>) code = Own room' \<and>
           (type = missing \<longrightarrow> length sets = 1) \<and> (type = standard \<longrightarrow> length sets = 2) \<and>
           (type = evolution \<longrightarrow> length sets = 3) \<and>
           (\<forall>x \<in> set sets. length x = 3 \<and> distinct x \<and> set x \<subseteq> set ELEMENTS)"
proof -
  from assms have m: "map_of (lobbies s) code = Some room"
    by (simp add: lobbies_get_Own)
  have len: "\<And>t. length (fst (randomElements 3 t)) = 3 \<and> distinct (fst (randomElements 3 t)) \<and>
      set (fst (randomElements 3 t)) \<subseteq> set ELEMENTS"
    using randomElements_spec [of 3] by simp
  obtain rand t0 where r: "Math_random t = (rand, t0)"
    by (cases "Math_random t")
  obtain s1 t1 where s1: "randomElements 3 t0 = (s1, t1)"
    by (cases "randomElements 3 t0")
  obtain s2 t2 where s2: "randomElements 3 t1 = (s2, t2)"
    by (cases "randomElements 3 t1")
  obtain s3 t3 where s3: "randomElements 3 t2 = (s3, t3)"
    by (cases "randomElements 3 t2")
  obtain s4 t4 where s4: "randomElements 3 t3 = (s4, t4)"
    by (cases "randomElements 3 t3")
  obtain s5 t5 where s5: "randomElements 3 t4 = (s5, t5)"
    by (cases "randomElements 3 t4")
  have l: "length s1 = 3 \<and> distinct s1 \<and> set s1 \<subseteq> set ELEMENTS"
    "length s2 = 3 \<and> distinct s2 \<and> set s2 \<subseteq> set ELEMENTS"
    "length s3 = 3 \<and> distinct s3 \<and> set s3 \<subseteq> set ELEMENTS"
    "length s4 = 3 \<and> distinct s4 \<and> set s4 \<subseteq> set ELEMENTS"
    "length s5 = 3 \<and> distinct s5 \<and> set s5 \<subseteq> set ELEMENTS"
    using len [of t0] len [of t1] len [of t2] len [of t3] len [of t4] s1 s2 s3 s4 s5
    by simp_all
  define type where "type = (if rnd_less rand (33 / 100) then missing
    else if rnd_less rand (66 / 100) then evolution else standard)"
  define sets where "sets = (if rnd_less rand (33 / 100) then [s3]
    else if rnd_less rand (66 / 100) then [s3, s4, s5] else [s1, s2])"
  define room' where
    "room' = room\<lparr>currentRound := currentRound room + 1, pending := [], roundType := type\<rparr>"
  have "startRound s code t =
      Normal ([To_room code (roundStart (currentRound room + 1) type sets (scores room))],
              s\<lparr>lobbies := registry_update code room' (lobbies s)\<rparr>)"
    using assms r s1 s2 s3 s4 s5
    by (simp add: startRound_def type_def sets_def room'_def scores_def)
  moreover have "lobbies_get (s\<lparr>lobbies := registry_update code room' (lobbies s)\<rparr>) code = Own room'"
    using m by (simp add: lobbies_get_Own map_of_registry_update)
  moreover have "(type = missing \<longrightarrow> length sets = 1) \<and> (type = standard \<longrightarrow> length sets = 2) \<and>
      (type = evolution \<longrightarrow> length sets = 3)"
    by (simp add: type_def sets_def)
  moreover have "\<forall>x \<in> set sets. length x = 3 \<and> distinct x \<and> set x \<subseteq> set ELEMENTS"
    using l by (simp add: sets_def)
  ultimately show ?thesis
    using room'_def by blast
qed

lemma requestNextRound_gameOver:
  assumes "lobbies_get s code = Own room" and "5 \<le> currentRound room"
  shows "requestNextRound s code t =
           Normal ([To_room code (gameOver (scores room))],
                   s\<lparr>lobbies := registry_delete code (lobbies s)\<rparr>)"
  using assms by (simp add: requestNextRound_def catch_log_def)

lemma requestNextRound_next:
  assumes "lobbies_get s code = Own room" and "currentRound room < 5"
  shows "requestNextRound s code t = startRound s code t"
proof -
  from startRound_Own [OF assms(1), of t] obtain x where "startRound s code t = Normal x"
    by blast
  with assms show ?thesis
    by (simp add: requestNextRound_def catch_log_def)
qed

text \<open>
  C3, as the code has it. While a room stays registered its \<open>currentRound\<close> never
  decreases, over any sequence of events in which \<^verbatim>\<open>createRoom\<close> does not generate the
  code of the room again. The round is not bounded by 5: \<^verbatim>\<open>startGame\<close> adds one to it
  whatever it is. \<^verbatim>\<open>requestNextRound\<close> is the handler with the limit: below round 5 it
  starts the next round, which is then 5 at most; at round 5 or more it broadcasts
  \<^verbatim>\<open>gameOver\<close> with the scores and deletes the room, after which a read of the room code
  finds no room (and finds nothing at all for a code that \<^verbatim>\<open>createRoom\<close> can generate).
\<close>

theorem C3_rounds:
  assumes "distinct (map fst (lobbies s))"
  shows "(\<forall>es out s' r'.
            (run s es = Normal (out, s') \<or> run s es = Throws (out, s')) \<and>
            (\<forall>e \<in> set es. \<forall>sid username. e \<noteq> CreateRoom sid username code) \<and>
            map_of (lobbies s') code = Some r' \<longrightarrow>
            (\<exists>r. map_of (lobbies s) code = Some r \<and> currentRound r \<le> currentRound r')) \<and>
         (\<forall>room. lobbies_get s code = Own room \<longrightarrow>
            (\<exists>out s' room'. startGame s code t = Normal (out, s') \<and>
               lobbies_get s' code = Own room' \<and> currentRound room' = currentRound room + 1)) \<and>
         (\<forall>room. lobbies_get s code = Own room \<and> currentRound room < 5 \<longrightarrow>
            (\<exists>type sets s' room'.
               requestNextRound s code t =
                 Normal ([To_room code (roundStart (currentRound room + 1) type sets (scores room))],
                         s') \<and>
               lobbies_get s' code = Own room' \<and> currentRound room' = currentRound room + 1 \<and>
               currentRound room' \<le> 5)) \<and>
         (\<forall>room. lobbies_get s code = Own room \<and> 5 \<le> currentRound room \<longrightarrow>
            (\<exists>s'. requestNextRound s code t =
                    Normal ([To_room code (gameOver (scores room))], s') \<and>
               map_of (lobbies s') code = None \<and> (\<forall>room'. lobbies_get s' code \<noteq> Own room') \<and>
               (generated_code code \<longrightarrow>
                  lobbies_get s' code = Absent \<and>
                  joinRoom s' sid username code =
                    Normal ([To_socket sid (errorMessage ''Room not found'')], s'))))"
proof (intro conjI allI impI)
  fix es out s' r'
  assume "(run s es = Normal (out, s') \<or> run s es = Throws (out, s')) \<and>
    (\<forall>e \<in> set es. \<forall>sid username. e \<noteq> CreateRoom sid username code) \<and>
    map_of (lobbies s') code = Some r'"
  then show "\<exists>r. map_of (lobbies s) code = Some r \<and> currentRound r \<le> currentRound r'"
    using run_currentRound [OF _ assms] by blast
next
  fix room
  assume own: "lobbies_get s code = Own room"
  from startRound_Own [OF own, of t] obtain type sets room' where
    "room' = room\<lparr>currentRound := currentRound room + 1, pending := [], roundType := type\<rparr>"
    "startRound s code t =
       Normal ([To_room code (roundStart (currentRound room + 1) type sets (scores room))],
               s\<lparr>lobbies := registry_update code room' (lobbies s)\<rparr>)"
    "lobbies_get (s\<lparr>lobbies := registry_update code room' (lobbies s)\<rparr>) code = Own room'"
    by blast
  then show "\<exists>out s' room'. startGame s code t = Normal (out, s') \<and>
      lobbies_get s' code = Own room' \<and> currentRound room' = currentRound room + 1"
    by (auto simp: startGame_def)
next
  fix room
  assume "lobbies_get s code = Own room \<and> currentRound room < 5"
  then have own: "lobbies_get s code = Own room" and lt: "currentRound room < 5"
    by simp_all
  from startRound_Own [OF own, of t] obtain type sets room' where
    "room' = room\<lparr>currentRound := currentRound room + 1, pending := [], roundType := type\<rparr>"
    "startRound s code t =
       Normal ([To_room code (roundStart (currentRound room + 1) type sets (scores room))],
               s\<lparr>lobbies := registry_update code room' (lobbies s)\<rparr>)"
    "lobbies_get (s\<lparr>lobbies := registry_update code room' (lobbies s)\<rparr>) code = Own room'"
    by blast
  with lt show "\<exists>type sets s' room'.
      requestNextRound s code t =
        Normal ([To_room code (roundStart (currentRound room + 1) type sets (scores room))], s') \<and>
      lobbies_get s' code = Own room' \<and> currentRound room' = currentRound room + 1 \<and>
      currentRound room' \<le> 5"
    by (auto simp: requestNextRound_next [OF own lt])
next
  fix room
  assume "lobbies_get s code = Own room \<and> 5 \<le> currentRound room"
  then have own: "lobbies_get s code = Own room" and ge: "5 \<le> currentRound room"
    by simp_all
  let ?s' = "s\<lparr>lobbies := registry_delete code (lobbies s)\<rparr>"
  have none: "map_of (lobbies ?s') code = None"
    by (simp add: map_of_registry_delete)
  then have notown: "\<forall>room'. lobbies_get ?s' code \<noteq> Own room'"
    by (simp add: lobbies_get_Own)
  have gen: "generated_code code \<longrightarrow>
      lobbies_get ?s' code = Absent \<and>
      joinRoom ?s' sid username code =
        Normal ([To_socket sid (errorMessage ''Room not found'')], ?s')"
  proof
    assume "generated_code code"
    from generated_code_not_inherited [OF this] none
    have "lobbies_get ?s' code = Absent"
      by (simp add: lobbies_get_Absent)
    then show "lobbies_get ?s' code = Absent \<and>
        joinRoom ?s' sid username code =
          Normal ([To_socket sid (errorMessage ''Room not found'')], ?s')"
      by (simp add: joinRoom_def)
  qed
  from requestNextRound_gameOver [OF own ge, of t] none notown gen
  show "\<exists>s'. requestNextRound s code t = Normal ([To_room code (gameOver (scores room))], s') \<and>
      map_of (lobbies s') code = None \<and> (\<forall>room'. lobbies_get s' code \<noteq> Own room') \<and>
      (generated_code code \<longrightarrow>
         lobbies_get s' code = Absent \<and>
         joinRoom s' sid username code =
           Normal ([To_socket sid (errorMessage ''Room not found'')], s'))"
    by blast
qed

theorem C3_rounds_witness:
  "distinct (map fst (lobbies
     \<lparr>lobbies = [(''AB12'', \<lparr>players = [\<lparr>id' = ''s1'', name = ''ann'', score = 3\<rparr>],
        currentRound = 5, roundType = evolution, pending = []\<rparr>)], polluted = False\<rparr>)) \<and>
   lobbies_get
     \<lparr>lobbies = [(''AB12'', \<lparr>players = [\<lparr>id' = ''s1'', name = ''ann'', score = 3\<rparr>],
        currentRound = 5, roundType = evolution, pending = []\<rparr>)], polluted = False\<rparr> ''AB12'' =
     Own \<lparr>players = [\<lparr>id' = ''s1'', name = ''ann'', score = 3\<rparr>],
        currentRound = 5, roundType = evolution, pending = []\<rparr> \<and>
   requestNextRound
     \<lparr>lobbies = [(''AB12'', \<lparr>players = [\<lparr>id' = ''s1'', name = ''ann'', score = 3\<rparr>],
        currentRound = 5, roundType = evolution, pending = []\<rparr>)], polluted = False\<rparr> ''AB12''
     (sconst (draw 0 1)) =
     Normal ([To_room ''AB12'' (gameOver [(''ann'', 3)])], \<lparr>lobbies = [], polluted = False\<rparr>) \<and>
   generated_code ''AB12'' \<and>
   joinRoom \<lparr>lobbies = [], polluted = False\<rparr> ''s2'' ''bob'' ''AB12'' =
     Normal ([To_socket ''s2'' (errorMessage ''Room not found'')], \<lparr>lobbies = [], polluted = False\<rparr>) \<and>
   startGame
     \<lparr>lobbies = [(''AB12'', \<lparr>players = [\<lparr>id' = ''s1'', name = ''ann'', score = 3\<rparr>],
        currentRound = 5, roundType = evolution, pending = []\<rparr>)], polluted = False\<rparr> ''AB12''
     (sconst (draw 0 1)) =
     Normal ([To_room ''AB12'' (roundStart 6 missing [[''Fire'', ''Water'', ''Earth'']] [(''ann'', 3)])],
       \<lparr>lobbies = [(''AB12'', \<lparr>players = [\<lparr>id' = ''s1'', name = ''ann'', score = 3\<rparr>],
          currentRound = 6, roundType = missing, pending = []\<rparr>)], polluted = False\<rparr>) \<and>
   requestNextRound
     \<lparr>lobbies = [(''ZZ9'', \<lparr>players = [\<lparr>id' = ''s1'', name = ''ann'', score = 3\<rparr>],
        currentRound = 4, roundType = evolution, pending = []\<rparr>)], polluted = False\<rparr> ''ZZ9''
     (sconst (draw 0 1)) =
     Normal ([To_room ''ZZ9'' (roundStart 5 missing [[''Fire'', ''Water'', ''Earth'']] [(''ann'', 3)])],
       \<lparr>lobbies = [(''ZZ9'', \<lparr>players = [\<lparr>id' = ''s1'', name = ''ann'', score = 3\<rparr>],
          currentRound = 5, roundType = missing, pending = []\<rparr>)], polluted = False\<rparr>)"
proof -
  let ?room = "\<lparr>players = [\<lparr>id' = ''s1'', name = ''ann'', score = 3\<rparr>],
    currentRound = 5, roundType = evolution, pending = []\<rparr>"
  let ?s = "\<lparr>lobbies = [(''AB12'', ?room)], polluted = False\<rparr>"
  let ?t = "sconst (draw 0 1)"
  have d: "distinct (map fst (lobbies ?s))"
    by simp
  have own: "lobbies_get ?s ''AB12'' = Own ?room"
    by (simp add: lobbies_get_def)
  have gen: "generated_code ''AB12''"
    by (simp add: generated_code_def)
  from C3_rounds [OF d, where code = "''AB12''" and t = ?t and sid = "''s2''" and username = "''bob''"]
  have over: "\<forall>room. lobbies_get ?s ''AB12'' = Own room \<and> 5 \<le> currentRound room \<longrightarrow>
      (\<exists>s'. requestNextRound ?s ''AB12'' ?t =
              Normal ([To_room ''AB12'' (gameOver (scores room))], s') \<and>
         map_of (lobbies s') ''AB12'' = None \<and> (\<forall>room'. lobbies_get s' ''AB12'' \<noteq> Own room') \<and>
         (generated_code ''AB12'' \<longrightarrow>
            lobbies_get s' ''AB12'' = Absent \<and>
            joinRoom s' ''s2'' ''bob'' ''AB12'' =
              Normal ([To_socket ''s2'' (errorMessage ''Room not found'')], s')))"
    by blast
  with own gen obtain s' where s':
    "requestNextRound ?s ''AB12'' ?t = Normal ([To_room ''AB12'' (gameOver (scores ?room))], s')"
    "joinRoom s' ''s2'' ''bob'' ''AB12'' =
       Normal ([To_socket ''s2'' (errorMessage ''Room not found'')], s')"
    by force
  have "requestNextRound ?s ''AB12'' ?t =
      Normal ([To_room ''AB12'' (gameOver [(''ann'', 3)])], \<lparr>lobbies = [], polluted = False\<rparr>)"
    by (simp add: eval_simps)
  with s' have "joinRoom \<lparr>lobbies = [], polluted = False\<rparr> ''s2'' ''bob'' ''AB12'' =
      Normal ([To_socket ''s2'' (errorMessage ''Room not found'')], \<lparr>lobbies = [], polluted = False\<rparr>)"
    by simp
  then show ?thesis
    using gen by (simp add: eval_simps)
qed

text \<open>
  The round of a room is not bounded by 5: after \<^verbatim>\<open>createRoom\<close> and six \<^verbatim>\<open>startGame\<close>
  the room is in round 6.
\<close>

theorem C3_counterexample:
  "(case run initial
      [CreateRoom ''s1'' ''ann'' ''AB12'',
       StartGame ''AB12'' (sconst (draw 0 1)), StartGame ''AB12'' (sconst (draw 0 1)),
       StartGame ''AB12'' (sconst (draw 0 1)), StartGame ''AB12'' (sconst (draw 0 1)),
       StartGame ''AB12'' (sconst (draw 0 1)), StartGame ''AB12'' (sconst (draw 0 1))] of
      Normal (out, s') \<Rightarrow> map (\<lambda>(code, room). (code, currentRound room)) (lobbies s')
    | Throws x \<Rightarrow> []) = [(''AB12'', 6)]"
  by (simp add: eval_simps)

section \<open>Pending abilities and resolution\<close>

lemma playerChoice_Own:
  assumes "lobbies_get s code = Own room"
    and "submit room sid els desc img t = (room1, t1)"
  shows "2 \<le> length (pending room1) \<Longrightarrow> battle code room1 orc t1 = Some (out, room2) \<Longrightarrow>
           playerChoice s sid code els desc img orc t =
             Normal (out, s\<lparr>lobbies := registry_update code room2 (lobbies s)\<rparr>)"
    and "\<not> (2 \<le> length (pending room1) \<and> orc \<noteq> Stalled) \<Longrightarrow>
           playerChoice s sid code els desc img orc t =
             Normal ([], s\<lparr>lobbies := registry_update code room1 (lobbies s)\<rparr>)"
  using assms battle_returns [of code room1 orc t1]
  by (auto simp: playerChoice_def)

lemma battle_Some:
  "orc \<noteq> Stalled \<Longrightarrow> \<exists>out room2. battle code room1 orc t1 = Some (out, room2)"
  using battle_returns [of code room1 orc t1] by (cases "battle code room1 orc t1") auto

lemma lobbies_get_update:
  "lobbies_get s code = Own room \<Longrightarrow>
   lobbies_get (s\<lparr>lobbies := registry_update code room' (lobbies s)\<rparr>) code = Own room'"
  by (simp add: lobbies_get_Own map_of_registry_update)

lemma submit_length:
  assumes "submit room sid els desc img t = (room1, t1)"
  shows "length (pending room1) =
           length (pending room) + (if length (players room) = 1 \<and> pending room = [] then 2 else 1)"
    and "i < length (pending room) \<Longrightarrow> pending room1 ! i = pending room ! i"
proof -
  from submit_room [OF assms] obtain els' where
    p: "if length (players room) = 1 \<and> pending room = []
        then \<exists>ai. pending room1 = [human_entry room sid els' desc img, ai] \<and>
               playerId ai = ''AI'' \<and> name' ai = ''AI Bot'' \<and>
               length (elements ai) = 2 \<and> set (elements ai) \<subseteq> set ELEMENTS \<and>
               imageUrl ai = [] \<and> power' ai \<le> 100
        else pending room1 = pending room @ [human_entry room sid els' desc img]"
    by blast
  show "length (pending room1) =
      length (pending room) + (if length (players room) = 1 \<and> pending room = [] then 2 else 1)"
  proof (cases "length (players room) = 1 \<and> pending room = []")
    case True
    with p obtain ai where "pending room1 = [human_entry room sid els' desc img, ai]"
      by auto
    with True show ?thesis by simp
  next
    case False
    with p have "pending room1 = pending room @ [human_entry room sid els' desc img]"
      by auto
    with False show ?thesis by auto
  qed
  show "pending room1 ! i = pending room ! i" if "i < length (pending room)"
  proof -
    from that have "pending room \<noteq> []"
      by auto
    with p have "pending room1 = pending room @ [human_entry room sid els' desc img]"
      by auto
    with that show ?thesis
      by (simp add: nth_append)
  qed
qed

lemma battle_pending:
  assumes "battle code room1 orc t1 = Some (out, room2)" and "2 \<le> length (pending room1)"
  shows "length (pending room2) = length (pending room1)"
    and "\<exists>w. out = [To_room code (battleResult (currentRound room1) w (pending room2 ! 0)
                  (pending room2 ! 1) (scores room2)
                  (narrative (pending room2 ! 0) (pending room2 ! 1)))]"
    and "pending room2 ! 0 = (pending room1 ! 0)\<lparr>power' := power' (pending room2 ! 0)\<rparr>"
    and "pending room2 ! 1 = (pending room1 ! 1)\<lparr>power' := power' (pending room2 ! 1)\<rparr>"
    and "\<And>i. 2 \<le> i \<Longrightarrow> pending room2 ! i = pending room1 ! i"
proof -
  from battle_room [OF assms(1)] obtain a b t' where
    ev: "evaluateAbilities orc (pending room1 ! 0) (pending room1 ! 1) t1 = Some ((a, b), t')"
    and out: "out = [To_room code (battleResult (currentRound room1) (winnerOf a b) a b
                (scores room2) (narrative a b))]"
    and r2: "room2 = room1\<lparr>pending := (pending room1)[0 := a, 1 := b],
                players := award (winnerOf a b) (players room1)\<rparr>"
    by blast
  have p: "pending room2 = (pending room1)[0 := a, 1 := b]"
    by (simp add: r2)
  from assms(2) have "0 < length (pending room1)" "1 < length (pending room1)"
    by linarith+
  then have ab: "pending room2 ! 0 = a" "pending room2 ! 1 = b"
    by (simp_all add: p nth_list_update)
  show "length (pending room2) = length (pending room1)"
    by (simp add: p)
  show "\<exists>w. out = [To_room code (battleResult (currentRound room1) w (pending room2 ! 0)
                  (pending room2 ! 1) (scores room2)
                  (narrative (pending room2 ! 0) (pending room2 ! 1)))]"
    using out unfolding ab by blast
  from evaluateAbilities_fields [OF ev]
  show "pending room2 ! 0 = (pending room1 ! 0)\<lparr>power' := power' (pending room2 ! 0)\<rparr>"
    "pending room2 ! 1 = (pending room1 ! 1)\<lparr>power' := power' (pending room2 ! 1)\<rparr>"
    unfolding ab by blast+
  show "\<And>i. 2 \<le> i \<Longrightarrow> pending room2 ! i = pending room1 ! i"
    by (simp add: p)
qed

text \<open>
  C1, as the code has it. \<^verbatim>\<open>playerChoice\<close> on a registered room adds one pending ability,
  and also the AI opponent when the room has one player and nothing was pending. It
  goes on to resolve the battle exactly when the pending list then has two entries or
  more, always on the first two entries, which keep everything but their power; the
  result is broadcast, once, unless the arbitration never returns. Nothing in the
  handler removes an entry, so the list can hold more than two entries when the battle
  is resolved.
\<close>

theorem C1_resolution:
  assumes "lobbies_get s code = Own room"
  shows "\<exists>out s' room'.
           playerChoice s sid code els desc img orc t = Normal (out, s') \<and>
           lobbies_get s' code = Own room' \<and>
           length (pending room') =
             length (pending room) +
               (if length (players room) = 1 \<and> pending room = [] then 2 else 1) \<and>
           (if 2 \<le> length (pending room') \<and> orc \<noteq> Stalled
            then \<exists>w. out = [To_room code (battleResult (currentRound room) w (pending room' ! 0)
                              (pending room' ! 1) (scores room')
                              (narrative (pending room' ! 0) (pending room' ! 1)))]
            else out = []) \<and>
           (\<forall>i. i < length (pending room) \<longrightarrow>
              pending room' ! i = (pending room ! i)\<lparr>power' := power' (pending room' ! i)\<rparr>) \<and>
           (\<forall>i. 2 \<le> i \<and> i < length (pending room) \<longrightarrow> pending room' ! i = pending room ! i)"
proof -
  obtain room1 t1 where sb: "submit room sid els desc img t = (room1, t1)"
    by (cases "submit room sid els desc img t")
  note len = submit_length [OF sb]
  from submit_room [OF sb] have cr: "currentRound room1 = currentRound room"
    by simp
  show ?thesis
  proof (cases "2 \<le> length (pending room1) \<and> orc \<noteq> Stalled")
    case resolve: True
    then have True: "2 \<le> length (pending room1)" and ns: "orc \<noteq> Stalled"
      by simp_all
    from battle_Some [OF ns] obtain out room2 where
      bt: "battle code room1 orc t1 = Some (out, room2)"
      by blast
    note bp = battle_pending [OF bt True]
    have pc: "playerChoice s sid code els desc img orc t =
        Normal (out, s\<lparr>lobbies := registry_update code room2 (lobbies s)\<rparr>)"
      using playerChoice_Own(1) [OF assms sb True bt] .
    have keep: "\<forall>i. i < length (pending room) \<longrightarrow>
        pending room2 ! i = (pending room ! i)\<lparr>power' := power' (pending room2 ! i)\<rparr>"
    proof (intro allI impI)
      fix i
      assume i: "i < length (pending room)"
      consider "i = 0" | "i = 1" | "2 \<le> i"
        by linarith
      then show "pending room2 ! i = (pending room ! i)\<lparr>power' := power' (pending room2 ! i)\<rparr>"
      proof cases
        case 1
        with bp(3) len(2) [OF i] show ?thesis by simp
      next
        case 2
        with bp(4) len(2) [OF i] show ?thesis by simp
      next
        case 3
        with bp(5) [OF 3] len(2) [OF i] show ?thesis by simp
      qed
    qed
    have later: "\<forall>i. 2 \<le> i \<and> i < length (pending room) \<longrightarrow> pending room2 ! i = pending room ! i"
      using bp(5) len(2) by simp
    from pc lobbies_get_update [OF assms, of room2] bp(1,2) len(1) True ns cr keep later
    show ?thesis
      by (intro exI [of _ out] exI [of _ "s\<lparr>lobbies := registry_update code room2 (lobbies s)\<rparr>"]
          exI [of _ room2]) simp
  next
    case False
    have pc: "playerChoice s sid code els desc img orc t =
        Normal ([], s\<lparr>lobbies := registry_update code room1 (lobbies s)\<rparr>)"
      using playerChoice_Own(2) [OF assms sb False] .
    have keep: "\<forall>i. i < length (pending room) \<longrightarrow>
        pending room1 ! i = (pending room ! i)\<lparr>power' := power' (pending room1 ! i)\<rparr>"
      using len(2) by simp
    have later: "\<forall>i. 2 \<le> i \<and> i < length (pending room) \<longrightarrow> pending room1 ! i = pending room ! i"
      using len(2) by simp
    from pc lobbies_get_update [OF assms, of room1] len(1) False keep later
    show ?thesis
      by (intro exI [of _ "[]"] exI [of _ "s\<lparr>lobbies := registry_update code room1 (lobbies s)\<rparr>"]
          exI [of _ room1]) simp
  qed
qed

theorem C1_resolution_witness:
  "lobbies_get
     \<lparr>lobbies = [(''AB12'',
        \<lparr>players = [\<lparr>id' = ''s1'', name = ''ann'', score = 0\<rparr>, \<lparr>id' = ''s2'', name = ''bob'', score = 0\<rparr>],
         currentRound = 1, roundType = standard,
         pending = [\<lparr>playerId = ''s1'', name' = ''ann'', elements = [''Fire'', ''Ice''],
           description = ''steam'', imageUrl = [], power' = 0\<rparr>]\<rparr>)], polluted = False\<rparr> ''AB12'' =
   Own \<lparr>players = [\<lparr>id' = ''s1'', name = ''ann'', score = 0\<rparr>, \<lparr>id' = ''s2'', name = ''bob'', score = 0\<rparr>],
         currentRound = 1, roundType = standard,
         pending = [\<lparr>playerId = ''s1'', name' = ''ann'', elements = [''Fire'', ''Ice''],
           description = ''steam'', imageUrl = [], power' = 0\<rparr>]\<rparr> \<and>
   playerChoice
     \<lparr>lobbies = [(''AB12'',
        \<lparr>players = [\<lparr>id' = ''s1'', name = ''ann'', score = 0\<rparr>, \<lparr>id' = ''s2'', name = ''bob'', score = 0\<rparr>],
         currentRound = 1, roundType = standard,
         pending = [\<lparr>playerId = ''s1'', name' = ''ann'', elements = [''Fire'', ''Ice''],
           description = ''steam'', imageUrl = [], power' = 0\<rparr>]\<rparr>)], polluted = False\<rparr>
     ''s2'' ''AB12'' [''Air'', ''Metal''] ''blade'' [] NoKey (draw 7 10 ## sconst (draw 1 2)) =
   Normal
     ([To_room ''AB12''
         (battleResult 1 ''s1''
            \<lparr>playerId = ''s1'', name' = ''ann'', elements = [''Fire'', ''Ice''],
              description = ''steam'', imageUrl = [], power' = 70\<rparr>
            \<lparr>playerId = ''s2'', name' = ''bob'', elements = [''Air'', ''Metal''],
              description = ''blade'', imageUrl = [], power' = 50\<rparr>
            [(''ann'', 1), (''bob'', 0)] ''ann (Fire + Ice) vs bob (Air + Metal)'')],
      \<lparr>lobbies = [(''AB12'',
         \<lparr>players = [\<lparr>id' = ''s1'', name = ''ann'', score = 1\<rparr>, \<lparr>id' = ''s2'', name = ''bob'', score = 0\<rparr>],
          currentRound = 1, roundType = standard,
          pending =
            [\<lparr>playerId = ''s1'', name' = ''ann'', elements = [''Fire'', ''Ice''],
               description = ''steam'', imageUrl = [], power' = 70\<rparr>,
             \<lparr>playerId = ''s2'', name' = ''bob'', elements = [''Air'', ''Metal''],
               description = ''blade'', imageUrl = [], power' = 50\<rparr>]\<rparr>)], polluted = False\<rparr>)"
proof -
  let ?a = "\<lparr>playerId = ''s1'', name' = ''ann'', elements = [''Fire'', ''Ice''],
    description = ''steam'', imageUrl = [], power' = 0\<rparr>"
  let ?room = "\<lparr>players = [\<lparr>id' = ''s1'', name = ''ann'', score = 0\<rparr>,
      \<lparr>id' = ''s2'', name = ''bob'', score = 0\<rparr>],
    currentRound = 1, roundType = standard, pending = [?a]\<rparr>"
  let ?s = "\<lparr>lobbies = [(''AB12'', ?room)], polluted = False\<rparr>"
  let ?t = "draw 7 10 ## sconst (draw 1 2)"
  have own: "lobbies_get ?s ''AB12'' = Own ?room"
    by (simp add: lobbies_get_def)
  from C1_resolution [OF own, of "''s2''" "[''Air'', ''Metal'']" "''blade''" "[]" NoKey ?t]
  obtain out s' room' where r:
    "playerChoice ?s ''s2'' ''AB12'' [''Air'', ''Metal''] ''blade'' [] NoKey ?t = Normal (out, s')"
    "lobbies_get s' ''AB12'' = Own room'" "length (pending room') = 2"
    by auto
  have ev: "playerChoice ?s ''s2'' ''AB12'' [''Air'', ''Metal''] ''blade'' [] NoKey ?t =
      Normal
       ([To_room ''AB12''
           (battleResult 1 ''s1'' (?a\<lparr>power' := 70\<rparr>)
              \<lparr>playerId = ''s2'', name' = ''bob'', elements = [''Air'', ''Metal''],
                description = ''blade'', imageUrl = [], power' = 50\<rparr>
              [(''ann'', 1), (''bob'', 0)] ''ann (Fire + Ice) vs bob (Air + Metal)'')],
        \<lparr>lobbies = [(''AB12'',
           \<lparr>players = [\<lparr>id' = ''s1'', name = ''ann'', score = 1\<rparr>,
              \<lparr>id' = ''s2'', name = ''bob'', score = 0\<rparr>],
            currentRound = 1, roundType = standard,
            pending =
              [?a\<lparr>power' := 70\<rparr>,
               \<lparr>playerId = ''s2'', name' = ''bob'', elements = [''Air'', ''Metal''],
                 description = ''blade'', imageUrl = [], power' = 50\<rparr>]\<rparr>)], polluted = False\<rparr>)"
    by (simp add: eval_simps)
  with r own show ?thesis
    by simp
qed

text \<open>
  A lone player who submits twice in one round: the second \<^verbatim>\<open>playerChoice\<close> resolves the
  battle again, on the same two abilities, with three abilities pending.
\<close>

theorem C1_counterexample:
  "(case run initial
      [CreateRoom ''s1'' ''ann'' ''AB12'',
       StartGame ''AB12'' (sconst (draw 9 10)),
       PlayerChoice ''s1'' ''AB12'' [''Light'', ''Shadow''] ''dusk'' [] NoKey
         (draw 0 1 ## draw 1 2 ## draw 3 10 ## draw 7 10 ## sconst (draw 1 5)),
       PlayerChoice ''s1'' ''AB12'' [''Nature'', ''Light''] ''dawn'' [] NoKey
         (draw 1 10 ## sconst (draw 4 5))] of
      Normal (out, s') \<Rightarrow>
        (map (\<lambda>e. case e of To_room c (battleResult n w a b sc nar) \<Rightarrow> [playerId a, playerId b]
                     | _ \<Rightarrow> []) out,
         map (\<lambda>(c, r). map playerId (pending r)) (lobbies s'))
    | Throws x \<Rightarrow> ([], [])) =
   ([[], [], [''s1'', ''AI''], [''s1'', ''AI'']], [[''s1'', ''AI'', ''s1'']])"
  by (simp add: eval_simps)

section \<open>The lone player\<close>

lemma playerId_human_entry: "playerId (human_entry room sid els desc img) = sid"
  by (simp add: human_entry_def)

lemma elements_human_entry: "elements (human_entry room sid els desc img) = els"
  by (simp add: human_entry_def)

text \<open>
  C4, as the code has it. \<^verbatim>\<open>playerChoice\<close> spawns the AI opponent exactly when the room has
  one player and nothing was pending: the pending list is then the sender's ability
  followed by the AI's, of length 2. In every other case exactly one entry, the
  sender's, is added. A room with one player always gets exactly one \<^verbatim>\<open>battleResult\<close>
  from one \<^verbatim>\<open>playerChoice\<close>, without any other event, whatever was pending, provided
  that the arbitration returns; when it never does, nothing is broadcast.
\<close>

theorem C4_lone_player:
  assumes "lobbies_get s code = Own room"
  shows "\<exists>out s' room'.
           playerChoice s sid code els desc img orc t = Normal (out, s') \<and>
           lobbies_get s' code = Own room' \<and>
           (length (players room) = 1 \<and> orc \<noteq> Stalled \<longrightarrow>
              (\<exists>w a b sc nar. out = [To_room code (battleResult (currentRound room) w a b sc nar)])) \<and>
           (orc = Stalled \<longrightarrow> out = []) \<and>
           (length (players room) = 1 \<and> pending room = [] \<longrightarrow>
              (\<exists>a b. pending room' = [a, b] \<and> playerId a = sid \<and> playerId b = ''AI'' \<and>
                 name' b = ''AI Bot'' \<and>
                 (orc \<noteq> Stalled \<longrightarrow>
                    (\<exists>w sc nar.
                       out = [To_room code (battleResult (currentRound room) w a b sc nar)])))) \<and>
           (\<not> (length (players room) = 1 \<and> pending room = []) \<longrightarrow>
              length (pending room') = length (pending room) + 1 \<and>
              playerId (last (pending room')) = sid)"
proof -
  obtain room1 t1 where sb: "submit room sid els desc img t = (room1, t1)"
    by (cases "submit room sid els desc img t")
  from submit_room [OF sb] obtain els' where
    p: "if length (players room) = 1 \<and> pending room = []
        then \<exists>ai. pending room1 = [human_entry room sid els' desc img, ai] \<and>
               playerId ai = ''AI'' \<and> name' ai = ''AI Bot'' \<and>
               length (elements ai) = 2 \<and> set (elements ai) \<subseteq> set ELEMENTS \<and>
               imageUrl ai = [] \<and> power' ai \<le> 100
        else pending room1 = pending room @ [human_entry room sid els' desc img]"
    and cr: "currentRound room1 = currentRound room"
    by blast
  let ?h = "human_entry room sid els' desc img"
  let ?n = "length (pending room)"
  show ?thesis
  proof (cases "2 \<le> length (pending room1) \<and> orc \<noteq> Stalled")
    case resolve: True
    then have True: "2 \<le> length (pending room1)" and ns: "orc \<noteq> Stalled"
      by simp_all
    from battle_Some [OF ns] obtain out room2 where
      bt: "battle code room1 orc t1 = Some (out, room2)"
      by blast
    note bp = battle_pending [OF bt True]
    have pc: "playerChoice s sid code els desc img orc t =
        Normal (out, s\<lparr>lobbies := registry_update code room2 (lobbies s)\<rparr>)"
      using playerChoice_Own(1) [OF assms sb True bt] .
    from bp(2) cr obtain w where out:
      "out = [To_room code (battleResult (currentRound room) w (pending room2 ! 0)
                (pending room2 ! 1) (scores room2)
                (narrative (pending room2 ! 0) (pending room2 ! 1)))]"
      by auto
    have A: "length (players room) = 1 \<and> orc \<noteq> Stalled \<longrightarrow>
        (\<exists>w a b sc nar. out = [To_room code (battleResult (currentRound room) w a b sc nar)])"
      using out by blast
    have S: "orc = Stalled \<longrightarrow> out = []"
      using ns by simp
    have B: "length (players room) = 1 \<and> pending room = [] \<longrightarrow>
        (\<exists>a b. pending room2 = [a, b] \<and> playerId a = sid \<and> playerId b = ''AI'' \<and>
           name' b = ''AI Bot'' \<and>
           (orc \<noteq> Stalled \<longrightarrow>
              (\<exists>w sc nar. out = [To_room code (battleResult (currentRound room) w a b sc nar)])))"
    proof
      assume "length (players room) = 1 \<and> pending room = []"
      with p obtain ai where ai: "pending room1 = [?h, ai]" "playerId ai = ''AI''"
        "name' ai = ''AI Bot''"
        by auto
      from bp(1) ai(1) have "length (pending room2) = 2"
        by simp
      then have two: "pending room2 = [pending room2 ! 0, pending room2 ! 1]"
        by (cases "pending room2"; cases "tl (pending room2)") auto
      have "playerId (pending room2 ! 0) = sid"
        by (subst bp(3)) (simp add: ai(1) playerId_human_entry)
      moreover have "playerId (pending room2 ! 1) = ''AI'' \<and> name' (pending room2 ! 1) = ''AI Bot''"
        by (subst (1 2) bp(4)) (simp add: ai)
      ultimately show "\<exists>a b. pending room2 = [a, b] \<and> playerId a = sid \<and> playerId b = ''AI'' \<and>
           name' b = ''AI Bot'' \<and>
           (orc \<noteq> Stalled \<longrightarrow>
              (\<exists>w sc nar. out = [To_room code (battleResult (currentRound room) w a b sc nar)]))"
        using two out by blast
    qed
    have C: "\<not> (length (players room) = 1 \<and> pending room = []) \<longrightarrow>
        length (pending room2) = ?n + 1 \<and> playerId (last (pending room2)) = sid"
    proof
      assume "\<not> (length (players room) = 1 \<and> pending room = [])"
      with p have r1: "pending room1 = pending room @ [?h]"
        by auto
      with bp(1) have len: "length (pending room2) = ?n + 1"
        by simp
      then have lst: "last (pending room2) = pending room2 ! ?n"
        by (cases "pending room2" rule: rev_cases) (auto simp: nth_append)
      from True r1 have n: "1 \<le> ?n"
        by simp
      have h: "pending room1 ! ?n = ?h"
        by (simp add: r1)
      have "playerId (pending room2 ! ?n) = sid"
      proof (cases "?n = 1")
        case True
        have "playerId (pending room2 ! 1) = playerId (pending room1 ! 1)"
          by (subst bp(4)) simp
        with True h show ?thesis
          by (simp add: playerId_human_entry)
      next
        case False
        with n have "2 \<le> ?n"
          by simp
        from bp(5) [OF this] h show ?thesis
          by (simp add: playerId_human_entry)
      qed
      with len lst show "length (pending room2) = ?n + 1 \<and> playerId (last (pending room2)) = sid"
        by simp
    qed
    from pc lobbies_get_update [OF assms, of room2] A S B C show ?thesis
      by blast
  next
    case False
    have pc: "playerChoice s sid code els desc img orc t =
        Normal ([], s\<lparr>lobbies := registry_update code room1 (lobbies s)\<rparr>)"
      using playerChoice_Own(2) [OF assms sb False] .
    have A: "length (players room) = 1 \<and> orc \<noteq> Stalled \<longrightarrow>
        (\<exists>w a b sc nar. [] = [To_room code (battleResult (currentRound room) w a b sc nar)])"
    proof
      assume a: "length (players room) = 1 \<and> orc \<noteq> Stalled"
      then have "2 \<le> length (pending room1)"
        using submit_length(1) [OF sb] by (cases "pending room") auto
      with a False show "\<exists>w a b sc nar.
          [] = [To_room code (battleResult (currentRound room) w a b sc nar)]"
        by simp
    qed
    have S: "orc = Stalled \<longrightarrow> [] = ([] :: emit list)"
      by simp
    have B: "length (players room) = 1 \<and> pending room = [] \<longrightarrow>
        (\<exists>a b. pending room1 = [a, b] \<and> playerId a = sid \<and> playerId b = ''AI'' \<and>
           name' b = ''AI Bot'' \<and>
           (orc \<noteq> Stalled \<longrightarrow>
              (\<exists>w sc nar. [] = [To_room code (battleResult (currentRound room) w a b sc nar)])))"
    proof
      assume lone: "length (players room) = 1 \<and> pending room = []"
      with p obtain ai where ai: "pending room1 = [?h, ai]" "playerId ai = ''AI''"
        "name' ai = ''AI Bot''"
        by auto
      then have "2 \<le> length (pending room1)"
        by simp
      with False have "orc = Stalled"
        by simp
      with ai show "\<exists>a b. pending room1 = [a, b] \<and> playerId a = sid \<and> playerId b = ''AI'' \<and>
           name' b = ''AI Bot'' \<and>
           (orc \<noteq> Stalled \<longrightarrow>
              (\<exists>w sc nar. [] = [To_room code (battleResult (currentRound room) w a b sc nar)]))"
        by (simp add: playerId_human_entry)
    qed
    have C: "\<not> (length (players room) = 1 \<and> pending room = []) \<longrightarrow>
        length (pending room1) = ?n + 1 \<and> playerId (last (pending room1)) = sid"
      using p by (auto simp: playerId_human_entry)
    from pc lobbies_get_update [OF assms, of room1] A S B C show ?thesis
      by blast
  qed
qed

theorem C4_lone_player_witness:
  "lobbies_get
     \<lparr>lobbies = [(''Q7'',
        \<lparr>players = [\<lparr>id' = ''s1'', name = ''ann'', score = 0\<rparr>],
         currentRound = 2, roundType = evolution, pending = []\<rparr>)], polluted = False\<rparr> ''Q7'' =
   Own \<lparr>players = [\<lparr>id' = ''s1'', name = ''ann'', score = 0\<rparr>],
         currentRound = 2, roundType = evolution, pending = []\<rparr> \<and>
   playerChoice
     \<lparr>lobbies = [(''Q7'',
        \<lparr>players = [\<lparr>id' = ''s1'', name = ''ann'', score = 0\<rparr>],
         currentRound = 2, roundType = evolution, pending = []\<rparr>)], polluted = False\<rparr>
     ''s1'' ''Q7'' [''Fire'', ''Ice'', ''Air''] ''storm'' [] (Answer (Some ''B''))
     (draw 0 1 ## draw 1 2 ## draw 3 10 ## draw 7 10 ## sconst (draw 1 5)) =
   Normal
     ([To_room ''Q7''
         (battleResult 2 ''AI''
            \<lparr>playerId = ''s1'', name' = ''ann'', elements = [''Fire'', ''Ice'', ''Air''],
              description = ''storm'', imageUrl = [], power' = 70\<rparr>
            \<lparr>playerId = ''AI'', name' = ''AI Bot'', elements = [''Fire'', ''Ice''],
              description = ''AI uses Fire and Ice'', imageUrl = [], power' = 71\<rparr>
            [(''ann'', 0)] ''ann (Fire + Ice + Air) vs AI Bot (Fire + Ice)'')],
      \<lparr>lobbies = [(''Q7'',
         \<lparr>players = [\<lparr>id' = ''s1'', name = ''ann'', score = 0\<rparr>],
          currentRound = 2, roundType = evolution,
          pending =
            [\<lparr>playerId = ''s1'', name' = ''ann'', elements = [''Fire'', ''Ice'', ''Air''],
               description = ''storm'', imageUrl = [], power' = 70\<rparr>,
             \<lparr>playerId = ''AI'', name' = ''AI Bot'', elements = [''Fire'', ''Ice''],
               description = ''AI uses Fire and Ice'', imageUrl = [], power' = 71\<rparr>]\<rparr>)],
       polluted = False\<rparr>)"
proof -
  let ?room = "\<lparr>players = [\<lparr>id' = ''s1'', name = ''ann'', score = 0\<rparr>],
    currentRound = 2, roundType = evolution, pending = []\<rparr>"
  let ?s = "\<lparr>lobbies = [(''Q7'', ?room)], polluted = False\<rparr>"
  let ?t = "draw 0 1 ## draw 1 2 ## draw 3 10 ## draw 7 10 ## sconst (draw 1 5)"
  have own: "lobbies_get ?s ''Q7'' = Own ?room"
    by (simp add: lobbies_get_def)
  from C4_lone_player [OF own, of "''s1''" "[''Fire'', ''Ice'', ''Air'']" "''storm''" "[]"
      "Answer (Some ''B'')" ?t]
  obtain out s' room' a b where r:
    "playerChoice ?s ''s1'' ''Q7'' [''Fire'', ''Ice'', ''Air''] ''storm'' [] (Answer (Some ''B'')) ?t =
       Normal (out, s')"
    "lobbies_get s' ''Q7'' = Own room'" "pending room' = [a, b]" "playerId b = ''AI''"
    by auto
  have ev: "playerChoice ?s ''s1'' ''Q7'' [''Fire'', ''Ice'', ''Air''] ''storm'' []
      (Answer (Some ''B'')) ?t =
      Normal
       ([To_room ''Q7''
           (battleResult 2 ''AI''
              \<lparr>playerId = ''s1'', name' = ''ann'', elements = [''Fire'', ''Ice'', ''Air''],
                description = ''storm'', imageUrl = [], power' = 70\<rparr>
              \<lparr>playerId = ''AI'', name' = ''AI Bot'', elements = [''Fire'', ''Ice''],
                description = ''AI uses Fire and Ice'', imageUrl = [], power' = 71\<rparr>
              [(''ann'', 0)] ''ann (Fire + Ice + Air) vs AI Bot (Fire + Ice)'')],
        \<lparr>lobbies = [(''Q7'',
           \<lparr>players = [\<lparr>id' = ''s1'', name = ''ann'', score = 0\<rparr>],
            currentRound = 2, roundType = evolution,
            pending =
              [\<lparr>playerId = ''s1'', name' = ''ann'', elements = [''Fire'', ''Ice'', ''Air''],
                 description = ''storm'', imageUrl = [], power' = 70\<rparr>,
               \<lparr>playerId = ''AI'', name' = ''AI Bot'', elements = [''Fire'', ''Ice''],
                 description = ''AI uses Fire and Ice'', imageUrl = [], power' = 71\<rparr>]\<rparr>)],
         polluted = False\<rparr>)"
    by (simp add: eval_simps)
  with r own show ?thesis
    by simp
qed

text \<open>
  A room of two in which one player has submitted and the other then leaves: the room
  has one player and two pending abilities (the disconnect added the AI's). The
  \<^verbatim>\<open>playerChoice\<close> that follows brings the pending list to length 3, with no AI
  substitution.
\<close>

theorem C4_counterexample:
  "(case run initial
      [CreateRoom ''s1'' ''ann'' ''AB12'', JoinRoom ''s2'' ''bob'' ''AB12'',
       StartGame ''AB12'' (sconst (draw 9 10)),
       PlayerChoice ''s1'' ''AB12'' [''Light'', ''Shadow''] ''dusk'' [] NoKey (sconst (draw 1 5)),
       Disconnect ''s2'' (draw 0 1 ## draw 1 2 ## sconst (draw 3 10))] of
      Normal (out, s') \<Rightarrow>
        map (\<lambda>(c, r). (map id' (players r), map playerId (pending r))) (lobbies s')
    | Throws x \<Rightarrow> []) = [([''s1''], [''s1'', ''AI''])] \<and>
   (case run initial
      [CreateRoom ''s1'' ''ann'' ''AB12'', JoinRoom ''s2'' ''bob'' ''AB12'',
       StartGame ''AB12'' (sconst (draw 9 10)),
       PlayerChoice ''s1'' ''AB12'' [''Light'', ''Shadow''] ''dusk'' [] NoKey (sconst (draw 1 5)),
       Disconnect ''s2'' (draw 0 1 ## draw 1 2 ## sconst (draw 3 10)),
       PlayerChoice ''s1'' ''AB12'' [''Nature'', ''Light''] ''dawn'' [] NoKey
         (draw 1 10 ## sconst (draw 4 5))] of
      Normal (out, s') \<Rightarrow>
        map (\<lambda>(c, r). (map id' (players r), map playerId (pending r))) (lobbies s')
    | Throws x \<Rightarrow> []) = [([''s1''], [''s1'', ''AI'', ''s1''])]"
  by (simp add: eval_simps)

section \<open>Element counts\<close>

lemma battle_roundType:
  "battle code room1 orc t1 = Some (out, room2) \<Longrightarrow> roundType room2 = roundType room1"
  using battle_room [of code room1 orc t1 out room2] by auto

lemma playerChoice_entries:
  assumes "lobbies_get s code = Own room"
  shows "\<exists>out s' room' els'.
           playerChoice s sid code els desc img orc t = Normal (out, s') \<and>
           lobbies_get s' code = Own room' \<and> roundType room' = roundType room \<and>
           (if roundType room = missing then \<exists>e \<in> set ELEMENTS. els' = els @ [e] else els' = els) \<and>
           pending room' ! length (pending room) =
             (human_entry room sid els' desc img)
               \<lparr>power' := power' (pending room' ! length (pending room))\<rparr> \<and>
           (if length (players room) = 1 \<and> pending room = []
            then length (pending room') = 2 \<and> playerId (pending room' ! 1) = ''AI'' \<and>
                 length (elements (pending room' ! 1)) = 2 \<and>
                 set (elements (pending room' ! 1)) \<subseteq> set ELEMENTS \<and>
                 (orc \<noteq> Stalled \<longrightarrow>
                    (\<exists>w sc nar. out = [To_room code (battleResult (currentRound room) w
                                     (pending room' ! 0) (pending room' ! 1) sc nar)]))
            else length (pending room') = length (pending room) + 1)"
proof -
  obtain room1 t1 where sb: "submit room sid els desc img t = (room1, t1)"
    by (cases "submit room sid els desc img t")
  from submit_room [OF sb] obtain els' where
    els: "if roundType room = missing then \<exists>e \<in> set ELEMENTS. els' = els @ [e] else els' = els"
    and p: "if length (players room) = 1 \<and> pending room = []
        then \<exists>ai. pending room1 = [human_entry room sid els' desc img, ai] \<and>
               playerId ai = ''AI'' \<and> name' ai = ''AI Bot'' \<and>
               length (elements ai) = 2 \<and> set (elements ai) \<subseteq> set ELEMENTS \<and>
               imageUrl ai = [] \<and> power' ai \<le> 100
        else pending room1 = pending room @ [human_entry room sid els' desc img]"
    and cr: "currentRound room1 = currentRound room"
    and rt: "roundType room1 = roundType room"
    by blast
  let ?h = "human_entry room sid els' desc img"
  let ?n = "length (pending room)"
  have hn: "pending room1 ! ?n = ?h"
    using p by (auto split: if_splits)
  show ?thesis
  proof (cases "2 \<le> length (pending room1) \<and> orc \<noteq> Stalled")
    case resolve: True
    then have True: "2 \<le> length (pending room1)" and ns: "orc \<noteq> Stalled"
      by simp_all
    from battle_Some [OF ns] obtain out room2 where
      bt: "battle code room1 orc t1 = Some (out, room2)"
      by blast
    note bp = battle_pending [OF bt True]
    have pc: "playerChoice s sid code els desc img orc t =
        Normal (out, s\<lparr>lobbies := registry_update code room2 (lobbies s)\<rparr>)"
      using playerChoice_Own(1) [OF assms sb True bt] .
    have rt2: "roundType room2 = roundType room"
      using battle_roundType [OF bt] rt by simp
    have keep: "pending room2 ! i = (pending room1 ! i)\<lparr>power' := power' (pending room2 ! i)\<rparr>" for i
    proof -
      consider "i = 0" | "i = 1" | "2 \<le> i"
        by linarith
      then show ?thesis
      proof cases
        case 1
        with bp(3) show ?thesis by simp
      next
        case 2
        with bp(4) show ?thesis by simp
      next
        case 3
        with bp(5) [OF 3] show ?thesis by simp
      qed
    qed
    have H: "pending room2 ! ?n = ?h\<lparr>power' := power' (pending room2 ! ?n)\<rparr>"
      using keep [of ?n] hn by simp
    have L: "if length (players room) = 1 \<and> pending room = []
        then length (pending room2) = 2 \<and> playerId (pending room2 ! 1) = ''AI'' \<and>
             length (elements (pending room2 ! 1)) = 2 \<and>
             set (elements (pending room2 ! 1)) \<subseteq> set ELEMENTS \<and>
             (orc \<noteq> Stalled \<longrightarrow>
                (\<exists>w sc nar. out = [To_room code (battleResult (currentRound room) w
                                 (pending room2 ! 0) (pending room2 ! 1) sc nar)]))
        else length (pending room2) = ?n + 1"
    proof (cases "length (players room) = 1 \<and> pending room = []")
      case lone: True
      with p obtain ai where ai: "pending room1 = [?h, ai]" "playerId ai = ''AI''"
        "length (elements ai) = 2" "set (elements ai) \<subseteq> set ELEMENTS"
        by auto
      have "pending room2 ! 1 = ai\<lparr>power' := power' (pending room2 ! 1)\<rparr>"
        using keep [of 1] ai(1) by simp
      then have "playerId (pending room2 ! 1) = playerId ai"
        "elements (pending room2 ! 1) = elements ai"
        by (metis submission.select_convs(1) submission.surjective submission.update_convs(6),
            metis submission.select_convs(3) submission.surjective submission.update_convs(6))
      with ai(2,3,4) bp(1,2) ai(1) cr lone show ?thesis
        by auto
    next
      case False
      with p bp(1) show ?thesis
        by auto
    qed
    from pc lobbies_get_update [OF assms, of room2] rt2 els H L show ?thesis
      by blast
  next
    case False
    have pc: "playerChoice s sid code els desc img orc t =
        Normal ([], s\<lparr>lobbies := registry_update code room1 (lobbies s)\<rparr>)"
      using playerChoice_Own(2) [OF assms sb False] .
    have H: "pending room1 ! ?n = ?h\<lparr>power' := power' (pending room1 ! ?n)\<rparr>"
      using hn by simp
    have L: "if length (players room) = 1 \<and> pending room = []
        then length (pending room1) = 2 \<and> playerId (pending room1 ! 1) = ''AI'' \<and>
             length (elements (pending room1 ! 1)) = 2 \<and>
             set (elements (pending room1 ! 1)) \<subseteq> set ELEMENTS \<and>
             (orc \<noteq> Stalled \<longrightarrow>
                (\<exists>w sc nar. [] = [To_room code (battleResult (currentRound room) w
                                 (pending room1 ! 0) (pending room1 ! 1) sc nar)]))
        else length (pending room1) = ?n + 1"
    proof (cases "length (players room) = 1 \<and> pending room = []")
      case lone: True
      with p obtain ai where ai: "pending room1 = [?h, ai]" "playerId ai = ''AI''"
        "length (elements ai) = 2" "set (elements ai) \<subseteq> set ELEMENTS"
        by auto
      then have "2 \<le> length (pending room1)"
        by simp
      with False have "orc = Stalled"
        by simp
      with ai lone show ?thesis
        by simp
    next
      case notlone: False
      with p show ?thesis
        by auto
    qed
    from pc lobbies_get_update [OF assms, of room1] rt els H L show ?thesis
      by blast
  qed
qed

lemma elements_power_update: "x = y\<lparr>power' := p\<rparr> \<Longrightarrow> elements x = elements y \<and> playerId x = playerId y"
  by simp

text \<open>
  C5, as the code has it. A round that \<^verbatim>\<open>startRound\<close> makes \<open>missing\<close> is announced with
  exactly one element set, of length 3. In a \<open>missing\<close> round the ability that
  \<^verbatim>\<open>playerChoice\<close> records for the sender has the elements the client sent followed by
  one element of the catalog drawn by the server: one more than the client sent,
  which is 4 only for a client that sent 3. The AI opponent of a lone player is not
  padded: in the \<^verbatim>\<open>battleResult\<close>, which is sent when the arbitration returns, the
  sender's ability has the client's elements plus one and the AI's has 2.
\<close>

theorem C5_missing_round:
  assumes "lobbies_get s code = Own room"
  shows "(\<exists>type sets s' room'.
            startRound s code t =
              Normal ([To_room code (roundStart (currentRound room + 1) type sets (scores room))], s') \<and>
            lobbies_get s' code = Own room' \<and> roundType room' = type \<and>
            (type = missing \<longrightarrow> (\<exists>x. sets = [x] \<and> length x = 3))) \<and>
         (roundType room = missing \<longrightarrow>
            (\<exists>out s' room' e.
               playerChoice s sid code els desc img orc t = Normal (out, s') \<and>
               lobbies_get s' code = Own room' \<and> e \<in> set ELEMENTS \<and>
               playerId (pending room' ! length (pending room)) = sid \<and>
               elements (pending room' ! length (pending room)) = els @ [e] \<and>
               (length (players room) = 1 \<and> pending room = [] \<and> orc \<noteq> Stalled \<longrightarrow>
                  (\<exists>w a b sc nar.
                     out = [To_room code (battleResult (currentRound room) w a b sc nar)] \<and>
                     playerId a = sid \<and> elements a = els @ [e] \<and>
                     length (elements a) = length els + 1 \<and>
                     playerId b = ''AI'' \<and> length (elements b) = 2))))"
proof
  from startRound_Own [OF assms, of t] obtain type sets room' where r:
    "room' = room\<lparr>currentRound := currentRound room + 1, pending := [], roundType := type\<rparr>"
    "startRound s code t =
       Normal ([To_room code (roundStart (currentRound room + 1) type sets (scores room))],
               s\<lparr>lobbies := registry_update code room' (lobbies s)\<rparr>)"
    "lobbies_get (s\<lparr>lobbies := registry_update code room' (lobbies s)\<rparr>) code = Own room'"
    "type = missing \<longrightarrow> length sets = 1"
    "\<forall>x \<in> set sets. length x = 3 \<and> distinct x \<and> set x \<subseteq> set ELEMENTS"
    by blast
  have "type = missing \<longrightarrow> (\<exists>x. sets = [x] \<and> length x = 3)"
  proof
    assume "type = missing"
    with r(4) obtain x where "sets = [x]"
      by (cases sets) auto
    with r(5) show "\<exists>x. sets = [x] \<and> length x = 3"
      by simp
  qed
  moreover have "roundType room' = type"
    by (simp add: r(1))
  ultimately show "\<exists>type sets s' room'.
      startRound s code t =
        Normal ([To_room code (roundStart (currentRound room + 1) type sets (scores room))], s') \<and>
      lobbies_get s' code = Own room' \<and> roundType room' = type \<and>
      (type = missing \<longrightarrow> (\<exists>x. sets = [x] \<and> length x = 3))"
    using r(2,3) by blast
next
  show "roundType room = missing \<longrightarrow>
      (\<exists>out s' room' e.
         playerChoice s sid code els desc img orc t = Normal (out, s') \<and>
         lobbies_get s' code = Own room' \<and> e \<in> set ELEMENTS \<and>
         playerId (pending room' ! length (pending room)) = sid \<and>
         elements (pending room' ! length (pending room)) = els @ [e] \<and>
         (length (players room) = 1 \<and> pending room = [] \<and> orc \<noteq> Stalled \<longrightarrow>
            (\<exists>w a b sc nar.
               out = [To_room code (battleResult (currentRound room) w a b sc nar)] \<and>
               playerId a = sid \<and> elements a = els @ [e] \<and>
               length (elements a) = length els + 1 \<and>
               playerId b = ''AI'' \<and> length (elements b) = 2)))"
  proof
    assume m: "roundType room = missing"
    from playerChoice_entries [OF assms, of sid els desc img orc t] m
    obtain out s' room' e where r:
      "playerChoice s sid code els desc img orc t = Normal (out, s')"
      "lobbies_get s' code = Own room'" "e \<in> set ELEMENTS"
      "pending room' ! length (pending room) =
         (human_entry room sid (els @ [e]) desc img)
           \<lparr>power' := power' (pending room' ! length (pending room))\<rparr>"
      "if length (players room) = 1 \<and> pending room = []
       then length (pending room') = 2 \<and> playerId (pending room' ! 1) = ''AI'' \<and>
            length (elements (pending room' ! 1)) = 2 \<and>
            set (elements (pending room' ! 1)) \<subseteq> set ELEMENTS \<and>
            (orc \<noteq> Stalled \<longrightarrow>
               (\<exists>w sc nar. out = [To_room code (battleResult (currentRound room) w
                                (pending room' ! 0) (pending room' ! 1) sc nar)]))
       else length (pending room') = length (pending room) + 1"
      by auto
    from elements_power_update [OF r(4)]
    have h: "playerId (pending room' ! length (pending room)) = sid"
      "elements (pending room' ! length (pending room)) = els @ [e]"
      by (simp_all add: playerId_human_entry elements_human_entry)
    have "length (players room) = 1 \<and> pending room = [] \<and> orc \<noteq> Stalled \<longrightarrow>
        (\<exists>w a b sc nar.
           out = [To_room code (battleResult (currentRound room) w a b sc nar)] \<and>
           playerId a = sid \<and> elements a = els @ [e] \<and>
           length (elements a) = length els + 1 \<and>
           playerId b = ''AI'' \<and> length (elements b) = 2)"
    proof
      assume lone: "length (players room) = 1 \<and> pending room = [] \<and> orc \<noteq> Stalled"
      with h have a: "playerId (pending room' ! 0) = sid" "elements (pending room' ! 0) = els @ [e]"
        by simp_all
      then have "length (elements (pending room' ! 0)) = length els + 1"
        by simp
      with lone r(5) a show "\<exists>w a b sc nar.
           out = [To_room code (battleResult (currentRound room) w a b sc nar)] \<and>
           playerId a = sid \<and> elements a = els @ [e] \<and>
           length (elements a) = length els + 1 \<and>
           playerId b = ''AI'' \<and> length (elements b) = 2"
        by auto
    qed
    with r(1,2,3) h show "\<exists>out s' room' e.
         playerChoice s sid code els desc img orc t = Normal (out, s') \<and>
         lobbies_get s' code = Own room' \<and> e \<in> set ELEMENTS \<and>
         playerId (pending room' ! length (pending room)) = sid \<and>
         elements (pending room' ! length (pending room)) = els @ [e] \<and>
         (length (players room) = 1 \<and> pending room = [] \<and> orc \<noteq> Stalled \<longrightarrow>
            (\<exists>w a b sc nar.
               out = [To_room code (battleResult (currentRound room) w a b sc nar)] \<and>
               playerId a = sid \<and> elements a = els @ [e] \<and>
               length (elements a) = length els + 1 \<and>
               playerId b = ''AI'' \<and> length (elements b) = 2))"
      by blast
  qed
qed

theorem C5_missing_round_witness:
  "lobbies_get
     \<lparr>lobbies = [(''Q7'',
        \<lparr>players = [\<lparr>id' = ''s1'', name = ''ann'', score = 0\<rparr>],
         currentRound = 1, roundType = missing, pending = []\<rparr>)], polluted = False\<rparr> ''Q7'' =
   Own \<lparr>players = [\<lparr>id' = ''s1'', name = ''ann'', score = 0\<rparr>],
         currentRound = 1, roundType = missing, pending = []\<rparr> \<and>
   startRound
     \<lparr>lobbies = [(''Q7'',
        \<lparr>players = [\<lparr>id' = ''s1'', name = ''ann'', score = 0\<rparr>],
         currentRound = 1, roundType = missing, pending = []\<rparr>)], polluted = False\<rparr>
     ''Q7'' (draw 1 10 ## sconst (draw 1 2)) =
   Normal
     ([To_room ''Q7'' (roundStart 2 missing [[''Ice'', ''Lightning'', ''Metal'']] [(''ann'', 0)])],
      \<lparr>lobbies = [(''Q7'',
         \<lparr>players = [\<lparr>id' = ''s1'', name = ''ann'', score = 0\<rparr>],
          currentRound = 2, roundType = missing, pending = []\<rparr>)], polluted = False\<rparr>) \<and>
   playerChoice
     \<lparr>lobbies = [(''Q7'',
        \<lparr>players = [\<lparr>id' = ''s1'', name = ''ann'', score = 0\<rparr>],
         currentRound = 1, roundType = missing, pending = []\<rparr>)], polluted = False\<rparr>
     ''s1'' ''Q7'' [''Fire'', ''Water'', ''Earth''] ''mud'' [] NoKey
     (draw 9 10 ## draw 0 1 ## draw 1 2 ## draw 3 10 ## draw 7 10 ## sconst (draw 1 5)) =
   Normal
     ([To_room ''Q7''
         (battleResult 1 ''s1''
            \<lparr>playerId = ''s1'', name' = ''ann'', elements = [''Fire'', ''Water'', ''Earth'', ''Light''],
              description = ''mud'', imageUrl = [], power' = 70\<rparr>
            \<lparr>playerId = ''AI'', name' = ''AI Bot'', elements = [''Fire'', ''Ice''],
              description = ''AI uses Fire and Ice'', imageUrl = [], power' = 20\<rparr>
            [(''ann'', 1)] ''ann (Fire + Water + Earth + Light) vs AI Bot (Fire + Ice)'')],
      \<lparr>lobbies = [(''Q7'',
         \<lparr>players = [\<lparr>id' = ''s1'', name = ''ann'', score = 1\<rparr>],
          currentRound = 1, roundType = missing,
          pending =
            [\<lparr>playerId = ''s1'', name' = ''ann'',
               elements = [''Fire'', ''Water'', ''Earth'', ''Light''],
               description = ''mud'', imageUrl = [], power' = 70\<rparr>,
             \<lparr>playerId = ''AI'', name' = ''AI Bot'', elements = [''Fire'', ''Ice''],
               description = ''AI uses Fire and Ice'', imageUrl = [], power' = 20\<rparr>]\<rparr>)],
       polluted = False\<rparr>)"
proof -
  let ?room = "\<lparr>players = [\<lparr>id' = ''s1'', name = ''ann'', score = 0\<rparr>],
    currentRound = 1, roundType = missing, pending = []\<rparr>"
  let ?s = "\<lparr>lobbies = [(''Q7'', ?room)], polluted = False\<rparr>"
  let ?t = "draw 9 10 ## draw 0 1 ## draw 1 2 ## draw 3 10 ## draw 7 10 ## sconst (draw 1 5)"
  have own: "lobbies_get ?s ''Q7'' = Own ?room"
    by (simp add: lobbies_get_def)
  have m: "roundType ?room = missing"
    by simp
  from C5_missing_round [OF own, where sid = "''s1''" and els = "[''Fire'', ''Water'', ''Earth'']"
      and desc = "''mud''" and img = "[]" and orc = NoKey and t = ?t] m
  obtain out s' where r:
    "playerChoice ?s ''s1'' ''Q7'' [''Fire'', ''Water'', ''Earth''] ''mud'' [] NoKey ?t =
       Normal (out, s')"
    by blast
  have ev: "playerChoice ?s ''s1'' ''Q7'' [''Fire'', ''Water'', ''Earth''] ''mud'' [] NoKey ?t =
      Normal
       ([To_room ''Q7''
           (battleResult 1 ''s1''
              \<lparr>playerId = ''s1'', name' = ''ann'',
                elements = [''Fire'', ''Water'', ''Earth'', ''Light''],
                description = ''mud'', imageUrl = [], power' = 70\<rparr>
              \<lparr>playerId = ''AI'', name' = ''AI Bot'', elements = [''Fire'', ''Ice''],
                description = ''AI uses Fire and Ice'', imageUrl = [], power' = 20\<rparr>
              [(''ann'', 1)] ''ann (Fire + Water + Earth + Light) vs AI Bot (Fire + Ice)'')],
        \<lparr>lobbies = [(''Q7'',
           \<lparr>players = [\<lparr>id' = ''s1'', name = ''ann'', score = 1\<rparr>],
            currentRound = 1, roundType = missing,
            pending =
              [\<lparr>playerId = ''s1'', name' = ''ann'',
                 elements = [''Fire'', ''Water'', ''Earth'', ''Light''],
                 description = ''mud'', imageUrl = [], power' = 70\<rparr>,
               \<lparr>playerId = ''AI'', name' = ''AI Bot'', elements = [''Fire'', ''Ice''],
                 description = ''AI uses Fire and Ice'', imageUrl = [], power' = 20\<rparr>]\<rparr>)],
         polluted = False\<rparr>)"
    by (simp add: eval_simps)
  have sr: "startRound ?s ''Q7'' (draw 1 10 ## sconst (draw 1 2)) =
      Normal
       ([To_room ''Q7'' (roundStart 2 missing [[''Ice'', ''Lightning'', ''Metal'']] [(''ann'', 0)])],
        \<lparr>lobbies = [(''Q7'',
           \<lparr>players = [\<lparr>id' = ''s1'', name = ''ann'', score = 0\<rparr>],
            currentRound = 2, roundType = missing, pending = []\<rparr>)], polluted = False\<rparr>)"
    by (simp add: eval_simps)
  from r ev sr own show ?thesis
    by simp
qed

text \<open>
  A \<open>missing\<close> round, announced with one set of three elements, in which a lone player
  sends three elements: the \<^verbatim>\<open>battleResult\<close> shows 4 elements for the player and 2
  for the AI opponent.
\<close>

theorem C5_counterexample:
  "(case run initial
      [CreateRoom ''s1'' ''ann'' ''AB12'',
       StartGame ''AB12'' (draw 1 10 ## sconst (draw 1 2)),
       PlayerChoice ''s1'' ''AB12'' [''Ice'', ''Metal'', ''Nature''] ''frost'' [] NoKey
         (draw 9 10 ## draw 0 1 ## draw 1 2 ## draw 3 10 ## draw 7 10 ## sconst (draw 1 5))] of
      Normal (out, s') \<Rightarrow>
        map (\<lambda>e. case e of
                   To_room c (roundStart n ty sets sc) \<Rightarrow> (ty = missing, map length sets)
                 | To_room c (battleResult n w a b sc nar) \<Rightarrow>
                     (True, [length (elements a), length (elements b)])
                 | _ \<Rightarrow> (False, [])) out
    | Throws x \<Rightarrow> []) = [(False, []), (True, [3]), (True, [4, 2])]"
  by (simp add: eval_simps)

lemma createAIPlayer_entry:
  "\<exists>ai. fst (createAIPlayer room t) = room\<lparr>pending := pending room @ [ai]\<rparr> \<and>
     playerId ai = ''AI'' \<and> length (elements ai) = 2 \<and> set (elements ai) \<subseteq> set ELEMENTS"
proof -
  obtain e1 t1 where e1: "randomElement t = (e1, t1)"
    by (cases "randomElement t")
  obtain e2 t2 where e2: "randomElement t1 = (e2, t2)"
    by (cases "randomElement t1")
  have "e1 \<in> set ELEMENTS" "e2 \<in> set ELEMENTS"
    using randomElement_catalog [of t] randomElement_catalog [of t1] e1 e2 by simp_all
  let ?ai = "\<lparr>playerId = ''AI'', name' = ''AI Bot'', elements = [e1, e2],
    description = ''AI uses '' @ join '' and '' [e1, e2], imageUrl = [],
    power' = floor_times (shd t2) 101\<rparr>"
  have "fst (createAIPlayer room t) = room\<lparr>pending := pending room @ [?ai]\<rparr>"
    using e1 e2 by (simp add: createAIPlayer_def Math_random_def)
  moreover have "playerId ?ai = ''AI''" "length (elements ?ai) = 2"
    "set (elements ?ai) \<subseteq> set ELEMENTS"
    using \<open>e1 \<in> set ELEMENTS\<close> \<open>e2 \<in> set ELEMENTS\<close> by simp_all
  ultimately show ?thesis
    by blast
qed

text \<open>
  C10, as the code has it. The ability of the AI opponent has exactly two elements, of
  the catalog, in a room of any round type, and nothing else about the room changes
  when it is added: it is never padded. When a lone player is resolved against it in
  a \<open>missing\<close> round (the arbitration returning), the player's ability has one element
  more than the client sent and the AI's has two, so the two counts differ exactly
  when the client did not send exactly one element.
\<close>

theorem C10_ai_elements:
  "(\<exists>ai. fst (createAIPlayer room0 t0) = room0\<lparr>pending := pending room0 @ [ai]\<rparr> \<and>
      playerId ai = ''AI'' \<and> length (elements ai) = 2 \<and> set (elements ai) \<subseteq> set ELEMENTS) \<and>
   (lobbies_get s code = Own room \<and> roundType room = missing \<and>
    length (players room) = 1 \<and> pending room = [] \<and> orc \<noteq> Stalled \<longrightarrow>
      (\<exists>w a b sc nar s'.
         playerChoice s sid code els desc img orc t =
           Normal ([To_room code (battleResult (currentRound room) w a b sc nar)], s') \<and>
         playerId a = sid \<and> length (elements a) = length els + 1 \<and>
         playerId b = ''AI'' \<and> length (elements b) = 2 \<and>
         (length (elements a) = length (elements b) \<longleftrightarrow> length els = 1)))"
proof
  show "\<exists>ai. fst (createAIPlayer room0 t0) = room0\<lparr>pending := pending room0 @ [ai]\<rparr> \<and>
      playerId ai = ''AI'' \<and> length (elements ai) = 2 \<and> set (elements ai) \<subseteq> set ELEMENTS"
    by (rule createAIPlayer_entry)
next
  show "lobbies_get s code = Own room \<and> roundType room = missing \<and>
    length (players room) = 1 \<and> pending room = [] \<and> orc \<noteq> Stalled \<longrightarrow>
      (\<exists>w a b sc nar s'.
         playerChoice s sid code els desc img orc t =
           Normal ([To_room code (battleResult (currentRound room) w a b sc nar)], s') \<and>
         playerId a = sid \<and> length (elements a) = length els + 1 \<and>
         playerId b = ''AI'' \<and> length (elements b) = 2 \<and>
         (length (elements a) = length (elements b) \<longleftrightarrow> length els = 1))"
  proof
    assume "lobbies_get s code = Own room \<and> roundType room = missing \<and>
      length (players room) = 1 \<and> pending room = [] \<and> orc \<noteq> Stalled"
    then have own: "lobbies_get s code = Own room" and m: "roundType room = missing"
      and lone: "length (players room) = 1 \<and> pending room = []" and ns: "orc \<noteq> Stalled"
      by simp_all
    from playerChoice_entries [OF own, of sid els desc img orc t]
    obtain out s' room' els' where pe:
      "playerChoice s sid code els desc img orc t = Normal (out, s') \<and>
       lobbies_get s' code = Own room' \<and> roundType room' = roundType room \<and>
       (if roundType room = missing then \<exists>e \<in> set ELEMENTS. els' = els @ [e] else els' = els) \<and>
       pending room' ! length (pending room) =
         (human_entry room sid els' desc img)
           \<lparr>power' := power' (pending room' ! length (pending room))\<rparr> \<and>
       (if length (players room) = 1 \<and> pending room = []
        then length (pending room') = 2 \<and> playerId (pending room' ! 1) = ''AI'' \<and>
             length (elements (pending room' ! 1)) = 2 \<and>
             set (elements (pending room' ! 1)) \<subseteq> set ELEMENTS \<and>
             (orc \<noteq> Stalled \<longrightarrow>
                (\<exists>w sc nar. out = [To_room code (battleResult (currentRound room) w
                                 (pending room' ! 0) (pending room' ! 1) sc nar)]))
        else length (pending room') = length (pending room) + 1)"
      by blast
    from pe m obtain e where e: "els' = els @ [e]"
      by auto
    from pe have r1: "playerChoice s sid code els desc img orc t = Normal (out, s')"
      by blast
    have r2: "pending room' ! 0 =
        (human_entry room sid (els @ [e]) desc img)\<lparr>power' := power' (pending room' ! 0)\<rparr>"
      using pe lone e by simp
    from pe lone ns
    have r3: "playerId (pending room' ! 1) = ''AI''"
      and r4: "length (elements (pending room' ! 1)) = 2"
      and r5: "\<exists>w sc nar. out = [To_room code (battleResult (currentRound room) w
                            (pending room' ! 0) (pending room' ! 1) sc nar)]"
      by simp_all
    from elements_power_update [OF r2]
    have a: "playerId (pending room' ! 0) = sid" "elements (pending room' ! 0) = els @ [e]"
      by (simp_all add: playerId_human_entry elements_human_entry)
    then have "length (elements (pending room' ! 0)) = length els + 1"
      by simp
    moreover from this r4
    have "length (elements (pending room' ! 0)) = length (elements (pending room' ! 1)) \<longleftrightarrow>
        length els = 1"
      by auto
    ultimately show "\<exists>w a b sc nar s'.
         playerChoice s sid code els desc img orc t =
           Normal ([To_room code (battleResult (currentRound room) w a b sc nar)], s') \<and>
         playerId a = sid \<and> length (elements a) = length els + 1 \<and>
         playerId b = ''AI'' \<and> length (elements b) = 2 \<and>
         (length (elements a) = length (elements b) \<longleftrightarrow> length els = 1)"
      using r1 r3 r4 r5 a(1) by blast
  qed
qed

theorem C10_ai_elements_witness:
  "lobbies_get
     \<lparr>lobbies = [(''Q7'',
        \<lparr>players = [\<lparr>id' = ''s1'', name = ''ann'', score = 0\<rparr>],
         currentRound = 3, roundType = missing, pending = []\<rparr>)], polluted = False\<rparr> ''Q7'' =
   Own \<lparr>players = [\<lparr>id' = ''s1'', name = ''ann'', score = 0\<rparr>],
         currentRound = 3, roundType = missing, pending = []\<rparr> \<and>
   playerChoice
     \<lparr>lobbies = [(''Q7'',
        \<lparr>players = [\<lparr>id' = ''s1'', name = ''ann'', score = 0\<rparr>],
         currentRound = 3, roundType = missing, pending = []\<rparr>)], polluted = False\<rparr>
     ''s1'' ''Q7'' [''Air'', ''Metal'', ''Shadow''] ''night blade'' [] Threw
     (draw 2 10 ## draw 4 10 ## draw 6 10 ## draw 99 100 ## draw 3 5 ## sconst (draw 1 100)) =
   Normal
     ([To_room ''Q7''
         (battleResult 3 ''s1''
            \<lparr>playerId = ''s1'', name' = ''ann'', elements = [''Air'', ''Metal'', ''Shadow'', ''Earth''],
              description = ''night blade'', imageUrl = [], power' = 60\<rparr>
            \<lparr>playerId = ''AI'', name' = ''AI Bot'', elements = [''Lightning'', ''Metal''],
              description = ''AI uses Lightning and Metal'', imageUrl = [], power' = 1\<rparr>
            [(''ann'', 1)]
            ''ann (Air + Metal + Shadow + Earth) vs AI Bot (Lightning + Metal)'')],
      \<lparr>lobbies = [(''Q7'',
         \<lparr>players = [\<lparr>id' = ''s1'', name = ''ann'', score = 1\<rparr>],
          currentRound = 3, roundType = missing,
          pending =
            [\<lparr>playerId = ''s1'', name' = ''ann'',
               elements = [''Air'', ''Metal'', ''Shadow'', ''Earth''],
               description = ''night blade'', imageUrl = [], power' = 60\<rparr>,
             \<lparr>playerId = ''AI'', name' = ''AI Bot'', elements = [''Lightning'', ''Metal''],
               description = ''AI uses Lightning and Metal'', imageUrl = [], power' = 1\<rparr>]\<rparr>)],
       polluted = False\<rparr>)"
proof -
  let ?room = "\<lparr>players = [\<lparr>id' = ''s1'', name = ''ann'', score = 0\<rparr>],
    currentRound = 3, roundType = missing, pending = []\<rparr>"
  let ?s = "\<lparr>lobbies = [(''Q7'', ?room)], polluted = False\<rparr>"
  let ?t = "draw 2 10 ## draw 4 10 ## draw 6 10 ## draw 99 100 ## draw 3 5 ## sconst (draw 1 100)"
  have own: "lobbies_get ?s ''Q7'' = Own ?room \<and> roundType ?room = missing \<and>
      length (players ?room) = 1 \<and> pending ?room = [] \<and> Threw \<noteq> Stalled"
    by (simp add: lobbies_get_def)
  from C10_ai_elements [where s = ?s and code = "''Q7''" and room = ?room and sid = "''s1''"
      and els = "[''Air'', ''Metal'', ''Shadow'']" and desc = "''night blade''" and img = "[]"
      and orc = Threw and t = ?t] own
  obtain w a b sc nar s' where r:
    "playerChoice ?s ''s1'' ''Q7'' [''Air'', ''Metal'', ''Shadow''] ''night blade'' [] Threw ?t =
       Normal ([To_room ''Q7'' (battleResult (currentRound ?room) w a b sc nar)], s')"
    by blast
  have ev: "playerChoice ?s ''s1'' ''Q7'' [''Air'', ''Metal'', ''Shadow''] ''night blade'' [] Threw ?t =
      Normal
       ([To_room ''Q7''
           (battleResult 3 ''s1''
              \<lparr>playerId = ''s1'', name' = ''ann'',
                elements = [''Air'', ''Metal'', ''Shadow'', ''Earth''],
                description = ''night blade'', imageUrl = [], power' = 60\<rparr>
              \<lparr>playerId = ''AI'', name' = ''AI Bot'', elements = [''Lightning'', ''Metal''],
                description = ''AI uses Lightning and Metal'', imageUrl = [], power' = 1\<rparr>
              [(''ann'', 1)]
              ''ann (Air + Metal + Shadow + Earth) vs AI Bot (Lightning + Metal)'')],
        \<lparr>lobbies = [(''Q7'',
           \<lparr>players = [\<lparr>id' = ''s1'', name = ''ann'', score = 1\<rparr>],
            currentRound = 3, roundType = missing,
            pending =
              [\<lparr>playerId = ''s1'', name' = ''ann'',
                 elements = [''Air'', ''Metal'', ''Shadow'', ''Earth''],
                 description = ''night blade'', imageUrl = [], power' = 60\<rparr>,
               \<lparr>playerId = ''AI'', name' = ''AI Bot'', elements = [''Lightning'', ''Metal''],
                 description = ''AI uses Lightning and Metal'', imageUrl = [], power' = 1\<rparr>]\<rparr>)],
         polluted = False\<rparr>)"
    by (simp add: eval_simps)
  from r ev own show ?thesis
    by simp
qed

text \<open>
  A \<open>missing\<close> round in which a lone player sends one element, which is what the client
  of this repository sends (one choice for each set shown, and a \<open>missing\<close> round shows
  one set): the player's ability and the AI's both have 2 elements.
\<close>

theorem C10_counterexample:
  "(case run initial
      [CreateRoom ''s1'' ''ann'' ''AB12'',
       StartGame ''AB12'' (draw 1 10 ## sconst (draw 1 2)),
       PlayerChoice ''s1'' ''AB12'' [''Ice''] ''frost'' [] NoKey
         (draw 9 10 ## draw 0 1 ## draw 1 2 ## draw 3 10 ## draw 7 10 ## sconst (draw 1 5))] of
      Normal (out, s') \<Rightarrow>
        (map (\<lambda>e. case e of
                    To_room c (battleResult n w a b sc nar) \<Rightarrow>
                      [(playerId a, elements a), (playerId b, elements b)]
                  | _ \<Rightarrow> []) out,
         map (\<lambda>(c, r). roundType r) (lobbies s'))
    | Throws x \<Rightarrow> ([], [])) =
   ([[], [], [(''s1'', [''Ice'', ''Light'']), (''AI'', [''Fire'', ''Ice''])]], [missing])"
  by (simp add: eval_simps)

section \<open>Disconnect\<close>

lemma disconnect_loop_skip:
  "\<forall>(c, r) \<in> set pre. sid \<notin> id' ` set (players r) \<Longrightarrow>
   disconnect_loop sid t (pre @ l) s = disconnect_loop sid t l s"
proof (induction pre)
  case Nil
  then show ?case by simp
next
  case (Cons x pre)
  obtain c r where x: "x = (c, r)"
    by (cases x)
  from Cons.prems have "\<forall>p \<in> set (players r). \<not> id' p = sid"
    by (auto simp: x)
  then have "findIndex (\<lambda>p. id' p = sid) (players r) = None"
    by (simp add: findIndex_None)
  with Cons show ?case
    by (simp add: x)
qed

lemma findIndex_member:
  "sid \<in> id' ` set ps \<Longrightarrow> \<exists>idx. findIndex (\<lambda>p. id' p = sid) ps = Some idx \<and> idx < length ps"
proof -
  assume "sid \<in> id' ` set ps"
  then have "findIndex (\<lambda>p. id' p = sid) ps \<noteq> None"
    by (auto simp: findIndex_None)
  then obtain idx where "findIndex (\<lambda>p. id' p = sid) ps = Some idx"
    by auto
  with findIndex_Some [OF this] show ?thesis
    by simp
qed

text \<open>
  C6, as the code has it. The handler goes through the rooms in the order of
  \<^verbatim>\<open>Object.keys(lobbies)\<close> and stops at the first room that has a player of the socket.
  With no such room it does nothing. Otherwise it removes the first such player of that
  room and broadcasts \<^verbatim>\<open>playerLeft\<close> to it; a room that had one player is deleted, a room
  that had two is left with one player and the AI's pending ability added, a larger
  room just loses the player. Every other room is left as it is, also one that has a
  player of the same socket.
\<close>

theorem C6_disconnect:
  assumes "distinct (map fst (lobbies s))"
  shows "((\<forall>(c, r) \<in> set (lobbies s). sid \<notin> id' ` set (players r)) \<longrightarrow>
            disconnect s sid t = Normal ([], s)) \<and>
         (\<forall>pre code room post.
            lobbies s = pre @ (code, room) # post \<and>
            (\<forall>(c, r) \<in> set pre. sid \<notin> id' ` set (players r)) \<and>
            sid \<in> id' ` set (players room) \<longrightarrow>
            (\<exists>idx s'.
               findIndex (\<lambda>p. id' p = sid) (players room) = Some idx \<and>
               disconnect s sid t = Normal ([To_room code (playerLeft sid)], s') \<and>
               polluted s' = polluted s \<and>
               (\<forall>c. c \<noteq> code \<longrightarrow> map_of (lobbies s') c = map_of (lobbies s) c) \<and>
               (length (players room) = 1 \<longrightarrow> map_of (lobbies s') code = None) \<and>
               (length (players room) = 2 \<longrightarrow>
                  (\<exists>ai. map_of (lobbies s') code =
                          Some (room\<lparr>players := splice1 idx (players room),
                                     pending := pending room @ [ai]\<rparr>) \<and>
                        length (splice1 idx (players room)) = 1 \<and>
                        playerId ai = ''AI'' \<and> length (elements ai) = 2)) \<and>
               (2 < length (players room) \<longrightarrow>
                  map_of (lobbies s') code =
                    Some (room\<lparr>players := splice1 idx (players room)\<rparr>))))"
proof (intro conjI allI impI)
  assume "\<forall>(c, r) \<in> set (lobbies s). sid \<notin> id' ` set (players r)"
  from disconnect_loop_skip [OF this, of t "[]" s] show "disconnect s sid t = Normal ([], s)"
    by (simp add: disconnect_def)
next
  fix pre code room post
  assume "lobbies s = pre @ (code, room) # post \<and>
    (\<forall>(c, r) \<in> set pre. sid \<notin> id' ` set (players r)) \<and>
    sid \<in> id' ` set (players room)"
  then have l: "lobbies s = pre @ (code, room) # post"
    and pre: "\<forall>(c, r) \<in> set pre. sid \<notin> id' ` set (players r)"
    and mem: "sid \<in> id' ` set (players room)"
    by simp_all
  from findIndex_member [OF mem] obtain idx where
    idx: "findIndex (\<lambda>p. id' p = sid) (players room) = Some idx" "idx < length (players room)"
    by blast
  let ?ps = "splice1 idx (players room)"
  let ?room1 = "room\<lparr>players := ?ps\<rparr>"
  have len: "length ?ps = length (players room) - 1"
    using idx(2) by (rule splice1_length)
  from createAIPlayer_entry [of ?room1 t] obtain ai where
    ai: "fst (createAIPlayer ?room1 t) = ?room1\<lparr>pending := pending ?room1 @ [ai]\<rparr>"
      "playerId ai = ''AI''" "length (elements ai) = 2"
    by blast
  define s' where "s' =
    (if length ?ps = 0 then s\<lparr>lobbies := registry_delete code (lobbies s)\<rparr>
     else if length ?ps = 1
       then s\<lparr>lobbies := registry_update code (fst (createAIPlayer ?room1 t)) (lobbies s)\<rparr>
       else s\<lparr>lobbies := registry_update code ?room1 (lobbies s)\<rparr>)"
  have "disconnect s sid t = Normal (disconnect_loop sid t ((code, room) # post) s)"
    using disconnect_loop_skip [OF pre, of t "(code, room) # post" s]
    by (simp add: disconnect_def l)
  then have d: "disconnect s sid t = Normal ([To_room code (playerLeft sid)], s')"
    using idx(1) by (simp add: s'_def Let_def)
  have "(code, room) \<in> set (lobbies s)"
    by (simp add: l)
  with assms have m: "map_of (lobbies s) code = Some room"
    by simp
  have pol: "polluted s' = polluted s"
    by (simp add: s'_def)
  have other: "\<forall>c. c \<noteq> code \<longrightarrow> map_of (lobbies s') c = map_of (lobbies s) c"
    by (simp add: s'_def map_of_registry_delete map_of_registry_update)
  have one: "length (players room) = 1 \<longrightarrow> map_of (lobbies s') code = None"
    using len by (simp add: s'_def map_of_registry_delete)
  have two: "length (players room) = 2 \<longrightarrow>
      (\<exists>ai. map_of (lobbies s') code =
              Some (room\<lparr>players := ?ps, pending := pending room @ [ai]\<rparr>) \<and>
            length ?ps = 1 \<and> playerId ai = ''AI'' \<and> length (elements ai) = 2)"
  proof
    assume "length (players room) = 2"
    with len have l1: "length ?ps = 1"
      by simp
    then have "map_of (lobbies s') code = Some (?room1\<lparr>pending := pending ?room1 @ [ai]\<rparr>)"
      using m ai(1) by (simp add: s'_def map_of_registry_update)
    with l1 ai(2,3) show "\<exists>ai. map_of (lobbies s') code =
              Some (room\<lparr>players := ?ps, pending := pending room @ [ai]\<rparr>) \<and>
            length ?ps = 1 \<and> playerId ai = ''AI'' \<and> length (elements ai) = 2"
      by auto
  qed
  have more: "2 < length (players room) \<longrightarrow> map_of (lobbies s') code = Some ?room1"
    using len m by (simp add: s'_def map_of_registry_update)
  from idx(1) d pol other one two more
  show "\<exists>idx s'.
      findIndex (\<lambda>p. id' p = sid) (players room) = Some idx \<and>
      disconnect s sid t = Normal ([To_room code (playerLeft sid)], s') \<and>
      polluted s' = polluted s \<and>
      (\<forall>c. c \<noteq> code \<longrightarrow> map_of (lobbies s') c = map_of (lobbies s) c) \<and>
      (length (players room) = 1 \<longrightarrow> map_of (lobbies s') code = None) \<and>
      (length (players room) = 2 \<longrightarrow>
         (\<exists>ai. map_of (lobbies s') code =
                 Some (room\<lparr>players := splice1 idx (players room),
                            pending := pending room @ [ai]\<rparr>) \<and>
               length (splice1 idx (players room)) = 1 \<and>
               playerId ai = ''AI'' \<and> length (elements ai) = 2)) \<and>
      (2 < length (players room) \<longrightarrow>
         map_of (lobbies s') code = Some (room\<lparr>players := splice1 idx (players room)\<rparr>))"
    by blast
qed

theorem C6_disconnect_witness:
  "distinct (map fst (lobbies
     \<lparr>lobbies =
        [(''AAAA'', \<lparr>players = [\<lparr>id' = ''s1'', name = ''ann'', score = 1\<rparr>,
                               \<lparr>id' = ''s2'', name = ''bob'', score = 0\<rparr>],
            currentRound = 2, roundType = standard, pending = []\<rparr>),
         (''BBBB'', \<lparr>players = [\<lparr>id' = ''s3'', name = ''cat'', score = 0\<rparr>],
            currentRound = 0, roundType = standard, pending = []\<rparr>)],
      polluted = False\<rparr>)) \<and>
   disconnect
     \<lparr>lobbies =
        [(''AAAA'', \<lparr>players = [\<lparr>id' = ''s1'', name = ''ann'', score = 1\<rparr>,
                               \<lparr>id' = ''s2'', name = ''bob'', score = 0\<rparr>],
            currentRound = 2, roundType = standard, pending = []\<rparr>),
         (''BBBB'', \<lparr>players = [\<lparr>id' = ''s3'', name = ''cat'', score = 0\<rparr>],
            currentRound = 0, roundType = standard, pending = []\<rparr>)],
      polluted = False\<rparr> ''s2'' (draw 0 1 ## draw 1 2 ## sconst (draw 3 10)) =
   Normal
     ([To_room ''AAAA'' (playerLeft ''s2'')],
      \<lparr>lobbies =
         [(''AAAA'', \<lparr>players = [\<lparr>id' = ''s1'', name = ''ann'', score = 1\<rparr>],
             currentRound = 2, roundType = standard,
             pending = [\<lparr>playerId = ''AI'', name' = ''AI Bot'', elements = [''Fire'', ''Ice''],
               description = ''AI uses Fire and Ice'', imageUrl = [], power' = 30\<rparr>]\<rparr>),
          (''BBBB'', \<lparr>players = [\<lparr>id' = ''s3'', name = ''cat'', score = 0\<rparr>],
             currentRound = 0, roundType = standard, pending = []\<rparr>)],
       polluted = False\<rparr>) \<and>
   disconnect
     \<lparr>lobbies =
        [(''AAAA'', \<lparr>players = [\<lparr>id' = ''s1'', name = ''ann'', score = 1\<rparr>,
                               \<lparr>id' = ''s2'', name = ''bob'', score = 0\<rparr>],
            currentRound = 2, roundType = standard, pending = []\<rparr>),
         (''BBBB'', \<lparr>players = [\<lparr>id' = ''s3'', name = ''cat'', score = 0\<rparr>],
            currentRound = 0, roundType = standard, pending = []\<rparr>)],
      polluted = False\<rparr> ''s3'' (sconst (draw 0 1)) =
   Normal
     ([To_room ''BBBB'' (playerLeft ''s3'')],
      \<lparr>lobbies =
         [(''AAAA'', \<lparr>players = [\<lparr>id' = ''s1'', name = ''ann'', score = 1\<rparr>,
                                \<lparr>id' = ''s2'', name = ''bob'', score = 0\<rparr>],
             currentRound = 2, roundType = standard, pending = []\<rparr>)],
       polluted = False\<rparr>) \<and>
   disconnect
     \<lparr>lobbies =
        [(''AAAA'', \<lparr>players = [\<lparr>id' = ''s1'', name = ''ann'', score = 1\<rparr>,
                               \<lparr>id' = ''s2'', name = ''bob'', score = 0\<rparr>],
            currentRound = 2, roundType = standard, pending = []\<rparr>),
         (''BBBB'', \<lparr>players = [\<lparr>id' = ''s3'', name = ''cat'', score = 0\<rparr>],
            currentRound = 0, roundType = standard, pending = []\<rparr>)],
      polluted = False\<rparr> ''s9'' (sconst (draw 0 1)) =
   Normal
     ([],
      \<lparr>lobbies =
        [(''AAAA'', \<lparr>players = [\<lparr>id' = ''s1'', name = ''ann'', score = 1\<rparr>,
                               \<lparr>id' = ''s2'', name = ''bob'', score = 0\<rparr>],
            currentRound = 2, roundType = standard, pending = []\<rparr>),
         (''BBBB'', \<lparr>players = [\<lparr>id' = ''s3'', name = ''cat'', score = 0\<rparr>],
            currentRound = 0, roundType = standard, pending = []\<rparr>)],
      polluted = False\<rparr>)"
proof -
  let ?A = "\<lparr>players = [\<lparr>id' = ''s1'', name = ''ann'', score = 1\<rparr>,
      \<lparr>id' = ''s2'', name = ''bob'', score = 0\<rparr>],
    currentRound = 2, roundType = standard, pending = []\<rparr>"
  let ?B = "\<lparr>players = [\<lparr>id' = ''s3'', name = ''cat'', score = 0\<rparr>],
    currentRound = 0, roundType = standard, pending = []\<rparr>"
  let ?s = "\<lparr>lobbies = [(''AAAA'', ?A), (''BBBB'', ?B)], polluted = False\<rparr>"
  have d: "distinct (map fst (lobbies ?s))"
    by simp
  note inst = C6_disconnect [OF d]
  have none: "\<forall>(c, r) \<in> set (lobbies ?s). ''s9'' \<notin> id' ` set (players r)"
    by simp
  have n: "disconnect ?s ''s9'' (sconst (draw 0 1)) = Normal ([], ?s)"
    using inst [THEN conjunct1, THEN mp, OF none] .
  have first: "lobbies ?s = [] @ (''AAAA'', ?A) # [(''BBBB'', ?B)] \<and>
      (\<forall>(c, r) \<in> set []. ''s2'' \<notin> id' ` set (players r)) \<and>
      ''s2'' \<in> id' ` set (players ?A)"
    by simp
  have "\<exists>idx s'. findIndex (\<lambda>p. id' p = ''s2'') (players ?A) = Some idx \<and>
      disconnect ?s ''s2'' (draw 0 1 ## draw 1 2 ## sconst (draw 3 10)) =
        Normal ([To_room ''AAAA'' (playerLeft ''s2'')], s') \<and>
      polluted s' = polluted ?s \<and>
      (\<forall>c. c \<noteq> ''AAAA'' \<longrightarrow> map_of (lobbies s') c = map_of (lobbies ?s) c) \<and>
      (length (players ?A) = 1 \<longrightarrow> map_of (lobbies s') ''AAAA'' = None) \<and>
      (length (players ?A) = 2 \<longrightarrow>
         (\<exists>ai. map_of (lobbies s') ''AAAA'' =
                 Some (?A\<lparr>players := splice1 idx (players ?A), pending := pending ?A @ [ai]\<rparr>) \<and>
               length (splice1 idx (players ?A)) = 1 \<and>
               playerId ai = ''AI'' \<and> length (elements ai) = 2)) \<and>
      (2 < length (players ?A) \<longrightarrow>
         map_of (lobbies s') ''AAAA'' = Some (?A\<lparr>players := splice1 idx (players ?A)\<rparr>))"
    using inst [THEN conjunct2, THEN spec, THEN spec, THEN spec, THEN spec, THEN mp, OF first] .
  then obtain s' where s':
    "disconnect ?s ''s2'' (draw 0 1 ## draw 1 2 ## sconst (draw 3 10)) =
       Normal ([To_room ''AAAA'' (playerLeft ''s2'')], s')"
    by (elim exE conjE)
  have e2: "disconnect ?s ''s2'' (draw 0 1 ## draw 1 2 ## sconst (draw 3 10)) =
      Normal
       ([To_room ''AAAA'' (playerLeft ''s2'')],
        \<lparr>lobbies =
           [(''AAAA'', \<lparr>players = [\<lparr>id' = ''s1'', name = ''ann'', score = 1\<rparr>],
               currentRound = 2, roundType = standard,
               pending = [\<lparr>playerId = ''AI'', name' = ''AI Bot'', elements = [''Fire'', ''Ice''],
                 description = ''AI uses Fire and Ice'', imageUrl = [], power' = 30\<rparr>]\<rparr>),
            (''BBBB'', ?B)],
         polluted = False\<rparr>)"
    by (simp add: eval_simps)
  have e3: "disconnect ?s ''s3'' (sconst (draw 0 1)) =
      Normal ([To_room ''BBBB'' (playerLeft ''s3'')],
        \<lparr>lobbies = [(''AAAA'', ?A)], polluted = False\<rparr>)"
    by (simp add: eval_simps)
  from s' e2 have "s' = \<lparr>lobbies =
           [(''AAAA'', \<lparr>players = [\<lparr>id' = ''s1'', name = ''ann'', score = 1\<rparr>],
               currentRound = 2, roundType = standard,
               pending = [\<lparr>playerId = ''AI'', name' = ''AI Bot'', elements = [''Fire'', ''Ice''],
                 description = ''AI uses Fire and Ice'', imageUrl = [], power' = 30\<rparr>]\<rparr>),
            (''BBBB'', ?B)],
         polluted = False\<rparr>"
    by simp
  with s' have "disconnect ?s ''s2'' (draw 0 1 ## draw 1 2 ## sconst (draw 3 10)) =
      Normal
       ([To_room ''AAAA'' (playerLeft ''s2'')],
        \<lparr>lobbies =
           [(''AAAA'', \<lparr>players = [\<lparr>id' = ''s1'', name = ''ann'', score = 1\<rparr>],
               currentRound = 2, roundType = standard,
               pending = [\<lparr>playerId = ''AI'', name' = ''AI Bot'', elements = [''Fire'', ''Ice''],
                 description = ''AI uses Fire and Ice'', imageUrl = [], power' = 30\<rparr>]\<rparr>),
            (''BBBB'', ?B)],
         polluted = False\<rparr>)"
    by simp
  with d n e3 show ?thesis
    by (intro conjI)
qed

text \<open>
  A socket that has created two rooms and disconnects: the first room is deleted, the
  second stays registered with the player of the socket that is gone, its last one.
\<close>

theorem C6_counterexample:
  "run initial
     [CreateRoom ''s1'' ''ann'' ''AAAA'', CreateRoom ''s1'' ''ann'' ''BBBB'',
      Disconnect ''s1'' (sconst (draw 0 1))] =
   Normal
     ([To_socket ''s1'' (roomCreated ''AAAA''), To_socket ''s1'' (roomCreated ''BBBB''),
       To_room ''AAAA'' (playerLeft ''s1'')],
      \<lparr>lobbies = [(''BBBB'',
         \<lparr>players = [\<lparr>id' = ''s1'', name = ''ann'', score = 0\<rparr>],
          currentRound = 0, roundType = standard, pending = []\<rparr>)],
       polluted = False\<rparr>)"
  by (simp add: eval_simps)

end
